theory Spec2Isabelle
  imports Complex_Main "HOL-Library.AList"
begin

section \<open>JSON values\<close>

text \<open>
  The input of a tool call is a JSON value: \<^verbatim>\<open>JSON.parse\<close> produces it and
  \<^verbatim>\<open>JSON.stringify\<close> consumes it.  An object is kept as the list of its entries in the order
  \<^verbatim>\<open>Object.entries\<close> enumerates them.  \<^verbatim>\<open>undefined\<close> is a value of its own because a
  property can hold it.
\<close>

datatype json =
    JNull
  | JUndefined
  | JBool bool
  | JNum real
  | JStr string
  | JArr "json list"
  | JObj "(string \<times> json) list"

text \<open>An optional string used as a condition: \<^verbatim>\<open>undefined\<close>, \<^verbatim>\<open>null\<close> and \<^verbatim>\<open>""\<close> are false.\<close>

fun truthy :: "string option \<Rightarrow> bool" where
  "truthy None = False"
| "truthy (Some s) = (s \<noteq> [])"

text \<open>\<^verbatim>\<open>xs.join(sep)\<close> on an array of strings.\<close>

fun join :: "string \<Rightarrow> string list \<Rightarrow> string" where
  "join sep [] = []"
| "join sep [x] = x"
| "join sep (x # y # ys) = x @ sep @ join sep (y # ys)"

section \<open>The schema sanitizer (\<^verbatim>\<open>cleanSchema\<close> in \<^verbatim>\<open>translators/request.ts\<close>)\<close>

text \<open>
  The sanitizer reads parsed JSON and builds objects of its own by assignment, and an
  assignment to the key \<^verbatim>\<open>__proto__\<close> replaces the prototype of the object instead of adding
  an entry.  Its values therefore carry a prototype: \<open>VObj proto es\<close> is an object with
  the own enumerable entries \<open>es\<close>, in the order \<^verbatim>\<open>Object.entries\<close> enumerates them, where
  \<open>proto\<close> is \<open>None\<close> as long as the prototype is \<^verbatim>\<open>Object.prototype\<close> (every object literal
  and every object that \<^verbatim>\<open>JSON.parse\<close> returns) and \<open>Some p\<close> once it has been set to \<open>p\<close>,
  an object, an array or \<^verbatim>\<open>null\<close>.  An entry named \<^verbatim>\<open>__proto__\<close> is an own property, as
  \<^verbatim>\<open>JSON.parse\<close> creates it.
\<close>

datatype jsvalue =
    VNull
  | VUndefined
  | VBool bool
  | VNum real
  | VStr string
  | VArr "jsvalue list"
  | VObj "jsvalue option" "(string \<times> jsvalue) list"

text \<open>An object under construction: its prototype and its own entries.\<close>

type_synonym jsobject = "jsvalue option \<times> (string \<times> jsvalue) list"

definition objectValue :: "jsobject \<Rightarrow> jsvalue" where
  "objectValue obj = VObj (fst obj) (snd obj)"

text \<open>\<^verbatim>\<open>typeof v === "object" && v !== null\<close>: arrays are objects too.\<close>

fun isObjectType :: "jsvalue \<Rightarrow> bool" where
  "isObjectType (VArr _) = True"
| "isObjectType (VObj _ _) = True"
| "isObjectType _ = False"

text \<open>\<^verbatim>\<open>Array.isArray(v)\<close> and the elements of an array.\<close>

fun isArray :: "jsvalue \<Rightarrow> bool" where
  "isArray (VArr _) = True"
| "isArray _ = False"

fun elems :: "jsvalue \<Rightarrow> jsvalue list" where
  "elems (VArr xs) = xs"
| "elems _ = []"

text \<open>The decimal spelling of an array index, the key under which \<^verbatim>\<open>Object.entries\<close> lists it.\<close>

fun indexKey :: "nat \<Rightarrow> string" where
  "indexKey n =
     (if n < 10 then [''0123456789'' ! n]
      else indexKey (n div 10) @ [''0123456789'' ! (n mod 10)])"

declare indexKey.simps [simp del]

text \<open>
  \<^verbatim>\<open>Object.entries(v)\<close> for a value the source casts to \<^verbatim>\<open>Record<string, unknown>\<close>: the own
  entries, whatever the prototype.  The source only passes objects and arrays; the last
  equation is never reached from there.
\<close>

fun entries :: "jsvalue \<Rightarrow> (string \<times> jsvalue) list" where
  "entries (VObj proto es) = es"
| "entries (VArr xs) = zip (map indexKey [0..<length xs]) xs"
| "entries _ = []"

text \<open>
  The property read \<^verbatim>\<open>o.k\<close> for the names the sanitizer reads (\<^verbatim>\<open>type\<close>, \<^verbatim>\<open>properties\<close>,
  \<^verbatim>\<open>anyOf\<close>, \<^verbatim>\<open>oneOf\<close>, \<^verbatim>\<open>allOf\<close>): the own entry if there is one, else the same read on
  the prototype.  \<open>None\<close> is \<^verbatim>\<open>undefined\<close>: neither \<^verbatim>\<open>Object.prototype\<close> nor an array with
  \<^verbatim>\<open>Array.prototype\<close> has a property of one of these names.
\<close>

fun getProp :: "jsvalue \<Rightarrow> string \<Rightarrow> jsvalue option" where
  "getProp (VObj proto es) k =
     (case map_of es k of
        Some v \<Rightarrow> Some v
      | None \<Rightarrow> (case proto of None \<Rightarrow> None | Some p \<Rightarrow> getProp p k))"
| "getProp _ k = None"

text \<open>
  Whether an assignment to the key \<^verbatim>\<open>__proto__\<close> of an object with this prototype reaches
  the accessor \<^verbatim>\<open>__proto__\<close> of \<^verbatim>\<open>Object.prototype\<close>: the walk up the chain ends at an
  object with an own entry of that name and at the prototype \<^verbatim>\<open>null\<close>.  (Only an object,
  an array or \<^verbatim>\<open>null\<close> is ever a prototype.)
\<close>

fun protoSetterReachable :: "jsvalue option \<Rightarrow> bool" where
  "protoSetterReachable None = True"
| "protoSetterReachable (Some (VObj proto es)) =
     (map_of es ''__proto__'' = None \<and> protoSetterReachable proto)"
| "protoSetterReachable (Some (VArr xs)) = True"
| "protoSetterReachable (Some _) = False"

text \<open>
  The assignment \<^verbatim>\<open>o[k] = v\<close> to an object \<open>o\<close> that started as \<^verbatim>\<open>{}\<close>.  Every property on
  its prototype chain is a writable data property, except the accessor \<^verbatim>\<open>__proto__\<close> of
  \<^verbatim>\<open>Object.prototype\<close>.  So the assignment replaces the own entry \<open>k\<close> in place, or appends
  it when there is none (\<^const>\<open>AList.update\<close>); but for the key \<^verbatim>\<open>__proto__\<close>, when \<open>o\<close>
  has no own entry of that name and the accessor is reached, it makes \<open>v\<close> the prototype
  of \<open>o\<close> if \<open>v\<close> is an object, an array or \<^verbatim>\<open>null\<close>, and does nothing otherwise.  (The loops
  below meet the keys of their input in enumeration order, integer-like keys first, so
  that appending keeps the entries in enumeration order.)
\<close>

definition setProp :: "string \<Rightarrow> jsvalue \<Rightarrow> jsobject \<Rightarrow> jsobject" where
  "setProp k v obj =
    (case obj of (proto, es) \<Rightarrow>
       if k = ''__proto__'' \<and> map_of es k = None \<and> protoSetterReachable proto then
         (if isObjectType v \<or> v = VNull then (Some v, es) else (proto, es))
       else (proto, AList.update k v es))"

text \<open>\<^verbatim>\<open>!o.k\<close> for a property read \<^verbatim>\<open>o.k\<close>.\<close>

fun falsy :: "jsvalue option \<Rightarrow> bool" where
  "falsy None = True"
| "falsy (Some VNull) = True"
| "falsy (Some VUndefined) = True"
| "falsy (Some (VBool b)) = (\<not> b)"
| "falsy (Some (VNum n)) = (n = 0)"
| "falsy (Some (VStr s)) = (s = [])"
| "falsy (Some (VArr _)) = False"
| "falsy (Some (VObj _ _)) = False"

definition UNSUPPORTED_SCHEMA_FIELDS :: "string list" where
  "UNSUPPORTED_SCHEMA_FIELDS =
    [''format'', ''pattern'', ''minLength'', ''maxLength'', ''minimum'', ''maximum'',
     ''exclusiveMinimum'', ''exclusiveMaximum'', ''multipleOf'', ''minItems'', ''maxItems'',
     ''uniqueItems'', ''minProperties'', ''maxProperties'', ''const'', ''contentEncoding'',
     ''contentMediaType'', ''$schema'', ''$id'', ''$ref'', ''$defs'', ''definitions'',
     ''title'', ''examples'', ''default'', ''deprecated'']"

text \<open>
  The block after the loop of \<^verbatim>\<open>cleanSchema\<close>: when \<^verbatim>\<open>result.type === "object"\<close> it
  assigns \<^verbatim>\<open>result.additionalProperties = false\<close>, and \<^verbatim>\<open>result.properties = {}\<close> when
  none of \<^verbatim>\<open>result.properties\<close>, \<^verbatim>\<open>result.anyOf\<close>, \<^verbatim>\<open>result.oneOf\<close>, \<^verbatim>\<open>result.allOf\<close> is
  truthy.  The reads go through the prototype of \<^verbatim>\<open>result\<close>.
\<close>

definition closeObjectType :: "jsobject \<Rightarrow> jsobject" where
  "closeObjectType result =
    (if getProp (objectValue result) ''type'' = Some (VStr ''object'') then
       (let result1 = setProp ''additionalProperties'' (VBool False) result in
        if falsy (getProp (objectValue result1) ''properties'')
           \<and> falsy (getProp (objectValue result1) ''anyOf'')
           \<and> falsy (getProp (objectValue result1) ''oneOf'')
           \<and> falsy (getProp (objectValue result1) ''allOf'')
        then setProp ''properties'' (VObj None []) result1
        else result1)
     else result)"

lemma size_entries: "(k, v) \<in> set (entries s) \<Longrightarrow> size v < size s"
proof (cases s)
  case (VArr xs)
  assume "(k, v) \<in> set (entries s)"
  with VArr have "v \<in> set xs" by (auto dest: set_zip_rightD)
  then have "size v \<le> size_list size xs" by (simp add: size_list_estimation')
  with VArr show ?thesis by simp
next
  case (VObj proto es)
  assume "(k, v) \<in> set (entries s)"
  with VObj have "(k, v) \<in> set es" by simp
  then have "size_prod (\<lambda>_. 0) size (k, v) \<le> size_list (size_prod (\<lambda>_. 0) size) es"
    by (rule size_list_estimation') simp
  with VObj show ?thesis by simp
qed auto

lemma size_elems: "x \<in> set (elems s) \<Longrightarrow> size x < size s"
  by (cases s) (auto simp: less_Suc_eq_le size_list_estimation')

text \<open>
  \<^verbatim>\<open>cleanSchema\<close> with the branches of its loop body.  \<^verbatim>\<open>result\<close> and \<^verbatim>\<open>newProps\<close> start as
  \<^verbatim>\<open>{}\<close>, the pair \<open>(None, [])\<close>.  \<open>cleanField\<close> is the chain of \<^verbatim>\<open>if (key === ...)\<close> tests
  that computes the value assigned under \<open>key\<close>, \<open>cleanProperties\<close> the inner loop that
  fills \<^verbatim>\<open>newProps\<close>, and \<open>cleanItem\<close> the conditional
  \<^verbatim>\<open>typeof x === "object" && x !== null ? cleanSchema(x) : x\<close> applied to a property value
  and to each member of \<^verbatim>\<open>anyOf\<close>, \<^verbatim>\<open>oneOf\<close>, \<^verbatim>\<open>allOf\<close>.
\<close>

function cleanSchema :: "jsvalue \<Rightarrow> jsvalue"
  and cleanField :: "string \<Rightarrow> jsvalue \<Rightarrow> jsvalue"
  and cleanProperties :: "jsvalue \<Rightarrow> jsvalue"
  and cleanItem :: "jsvalue \<Rightarrow> jsvalue"
where
  "cleanSchema schema =
     objectValue (closeObjectType
       (fold (\<lambda>(key, value) result.
                if key \<in> set UNSUPPORTED_SCHEMA_FIELDS then result
                else setProp key (cleanField key value) result)
             (entries schema) (None, [])))"
| "cleanField key value =
     (if key = ''properties'' \<and> isObjectType value then cleanProperties value
      else if key = ''items'' \<and> isObjectType value then cleanSchema value
      else if key = ''anyOf'' \<and> isArray value then VArr (map cleanItem (elems value))
      else if key = ''oneOf'' \<and> isArray value then VArr (map cleanItem (elems value))
      else if key = ''allOf'' \<and> isArray value then VArr (map cleanItem (elems value))
      else if isObjectType value \<and> \<not> isArray value then cleanSchema value
      else value)"
| "cleanProperties value =
     objectValue
       (fold (\<lambda>(propKey, propValue) newProps. setProp propKey (cleanItem propValue) newProps)
             (entries value) (None, []))"
| "cleanItem item = (if isObjectType item then cleanSchema item else item)"
  by pat_completeness auto
termination
  by (relation "measure (\<lambda>x. case x of
            Inl (Inl s) \<Rightarrow> 3 * size s
          | Inl (Inr (k, v)) \<Rightarrow> 3 * size v + 2
          | Inr (Inl v) \<Rightarrow> 3 * size v + 1
          | Inr (Inr v) \<Rightarrow> 3 * size v + 1)")
     (auto dest: size_entries size_elems)

declare cleanSchema.simps [simp del] cleanField.simps [simp del]
  cleanProperties.simps [simp del] cleanItem.simps [simp del]

section \<open>Client-side (Anthropic) types\<close>

text \<open>Only the fields that the translators read or write are kept.\<close>

datatype SourceType = Base64Source | UrlSource

record ImageSource =
  src_type :: SourceType
  src_media_type :: "string option"
  src_data :: "string option"
  src_url :: "string option"

datatype ContentBlock =
    TextBlock (block_text: string)
  | ImageBlock ImageSource
  | ToolUseBlock string string json
  | ToolResultBlock string ToolResultContent "bool option"
and ToolResultContent =
    StringContent string
  | BlockContent "ContentBlock list"

datatype Role = User | Assistant

datatype MessageContent = Str string | Blocks "ContentBlock list"

record Message =
  m_role :: Role
  m_content :: MessageContent

datatype StopReason = end_turn | max_tokens | stop_sequence | tool_use

record MessagesResponse =
  r_id :: string
  r_model :: string
  r_content :: "ContentBlock list"
  r_stop_reason :: "StopReason option"
  r_stop_sequence :: "string option"
  r_input_tokens :: int
  r_output_tokens :: int

datatype Delta = TextDelta string | InputJsonDelta string

text \<open>
  The events that \<^verbatim>\<open>translateStreamChunk\<close> emits.  \<open>MessageDelta\<close> carries
  \<^verbatim>\<open>delta.stop_reason\<close>, \<^verbatim>\<open>delta.stop_sequence\<close> and \<^verbatim>\<open>usage.output_tokens\<close>.
\<close>

datatype StreamEvent =
    ContentBlockStart int ContentBlock
  | ContentBlockDelta int Delta
  | ContentBlockStop int
  | MessageDelta StopReason "string option" int
  | MessageStop

section \<open>Provider-side (Cerebras) types\<close>

record FunctionCall =
  fn_name :: string
  fn_arguments :: string

record ToolCall =
  tc_id :: string
  tc_function :: FunctionCall

datatype UserContentPart = TextPart string | ImageUrlPart string

datatype UserContent = UserText string | UserParts "UserContentPart list"

datatype ChatMessage =
    SystemMessage string
  | UserMessage UserContent
  | AssistantMessage "string option" "ToolCall list option"
  | ToolMessage string string

record ResponseMessage =
  msg_content :: "string option"
  msg_tool_calls :: "ToolCall list option"

record Choice =
  ch_message :: ResponseMessage
  ch_finish_reason :: "string option"

record Usage =
  prompt_tokens :: int
  completion_tokens :: int

record ChatCompletionsResponse =
  resp_id :: string
  resp_choices :: "Choice list"
  resp_usage :: Usage

record DeltaFunction =
  dfn_name :: "string option"
  dfn_arguments :: "string option"

record DeltaToolCall =
  dtc_index :: int
  dtc_id :: "string option"
  dtc_function :: "DeltaFunction option"

record DeltaMessage =
  delta_content :: "string option"
  delta_tool_calls :: "DeltaToolCall list option"

record ChunkChoice =
  cc_delta :: DeltaMessage
  cc_finish_reason :: "string option"

record ChatCompletionsChunk =
  chunk_choices :: "ChunkChoice list"

section \<open>Errors\<close>

text \<open>
  \<open>NoChoices\<close> is \<^verbatim>\<open>new Error("No choices in Cerebras response")\<close>, the condition the
  specification calls \<open>EmptyReply\<close>; \<open>SyntaxError\<close> is what \<^verbatim>\<open>JSON.parse\<close> throws.
  \<^verbatim>\<open>JSON.parse\<close> and \<^verbatim>\<open>JSON.stringify\<close> are built-ins of the platform, not code of this
  repository: every function that calls one takes it as a parameter, \<open>parse\<close> returning
  \<open>None\<close> where \<^verbatim>\<open>JSON.parse\<close> throws.
\<close>

datatype error = NoChoices | SyntaxError

section \<open>The request mapper: \<^verbatim>\<open>translateMessage\<close>\<close>

fun isToolResult :: "ContentBlock \<Rightarrow> bool" where
  "isToolResult (ToolResultBlock _ _ _) = True"
| "isToolResult _ = False"

fun isText :: "ContentBlock \<Rightarrow> bool" where
  "isText (TextBlock _) = True"
| "isText _ = False"

fun isToolUse :: "ContentBlock \<Rightarrow> bool" where
  "isToolUse (ToolUseBlock _ _ _) = True"
| "isToolUse _ = False"

definition newline :: string where
  "newline = [CHR 0x0A]"

text \<open>
  The body of the loop over \<^verbatim>\<open>toolResults\<close>: the message pushed for one block.  The loop
  runs over the blocks that passed the \<^verbatim>\<open>tool_result\<close> filter, so the last equation is never
  reached; the same holds for \<open>toolUseCall\<close> below and the \<^verbatim>\<open>tool_use\<close> filter.
\<close>

fun toolResultMessage :: "ContentBlock \<Rightarrow> ChatMessage" where
  "toolResultMessage (ToolResultBlock tool_use_id content is_error) =
     (let content' = (case content of
                        StringContent s \<Rightarrow> s
                      | BlockContent blocks \<Rightarrow> join newline (map block_text (filter isText blocks)))
      in ToolMessage (if is_error = Some True then ''Error: '' @ content' else content')
                     tool_use_id)"
| "toolResultMessage _ = ToolMessage [] []"

text \<open>The parts pushed for one of \<^verbatim>\<open>otherBlocks\<close>; an image with neither form is dropped.\<close>

fun blockParts :: "ContentBlock \<Rightarrow> UserContentPart list" where
  "blockParts (TextBlock t) = [TextPart t]"
| "blockParts (ImageBlock source) =
     (if src_type source = Base64Source \<and> truthy (src_data source)
         \<and> truthy (src_media_type source)
      then [ImageUrlPart (''data:'' @ the (src_media_type source) @ '';base64,''
                            @ the (src_data source))]
      else if src_type source = UrlSource \<and> truthy (src_url source)
      then [ImageUrlPart (the (src_url source))]
      else [])"
| "blockParts _ = []"

fun toolUseCall :: "(json \<Rightarrow> string) \<Rightarrow> ContentBlock \<Rightarrow> ToolCall" where
  "toolUseCall stringify (ToolUseBlock i n input) =
     \<lparr>tc_id = i, tc_function = \<lparr>fn_name = n, fn_arguments = stringify input\<rparr>\<rparr>"
| "toolUseCall stringify _ = \<lparr>tc_id = [], tc_function = \<lparr>fn_name = [], fn_arguments = []\<rparr>\<rparr>"

definition translateMessage :: "(json \<Rightarrow> string) \<Rightarrow> Message \<Rightarrow> ChatMessage list" where
  "translateMessage stringify message =
    (case m_role message of
       User \<Rightarrow>
        (case m_content message of
           Str s \<Rightarrow> [UserMessage (UserText s)]
         | Blocks content \<Rightarrow>
            (let toolResults = filter isToolResult content;
                 otherBlocks = filter (\<lambda>block. \<not> isToolResult block) content
             in map toolResultMessage toolResults @
                (if otherBlocks \<noteq> [] then
                   (let parts = concat (map blockParts otherBlocks) in
                    case parts of
                      [TextPart t] \<Rightarrow> [UserMessage (UserText t)]
                    | [] \<Rightarrow> []
                    | _ \<Rightarrow> [UserMessage (UserParts parts)])
                 else [])))
     | Assistant \<Rightarrow>
        (case m_content message of
           Str s \<Rightarrow> [AssistantMessage (Some s) None]
         | Blocks content \<Rightarrow>
            (let textBlocks = filter isText content;
                 toolUseBlocks = filter isToolUse content
             in [AssistantMessage
                   (if textBlocks \<noteq> [] then Some (join newline (map block_text textBlocks))
                    else None)
                   (if toolUseBlocks \<noteq> [] then Some (map (toolUseCall stringify) toolUseBlocks)
                    else None)])))"

section \<open>The response translator\<close>

text \<open>
  \<^verbatim>\<open>translateStopReason(finishReason, toolCalls?)\<close>.  The finish reason is a string or
  \<^verbatim>\<open>null\<close>; the \<^verbatim>\<open>default\<close> branch of the \<^verbatim>\<open>switch\<close> takes every other value.
\<close>

definition translateStopReason :: "string option \<Rightarrow> ToolCall list option \<Rightarrow> StopReason option" where
  "translateStopReason finishReason toolCalls =
    (if (case toolCalls of None \<Rightarrow> False | Some tcs \<Rightarrow> length tcs > 0) then Some tool_use
     else if finishReason = Some ''stop'' then Some end_turn
     else if finishReason = Some ''length'' then Some max_tokens
     else if finishReason = Some ''tool_calls'' then Some tool_use
     else if finishReason = Some ''content_filter'' then Some end_turn
     else None)"

text \<open>
  The loop of \<^verbatim>\<open>translateResponse\<close> over \<^verbatim>\<open>choice.message.tool_calls\<close>: it pushes one
  \<^verbatim>\<open>tool_use\<close> block per call and stops at the first argument string that does not parse.
\<close>

fun pushToolUses :: "(string \<Rightarrow> json option) \<Rightarrow> ToolCall list \<Rightarrow> ContentBlock list
    \<Rightarrow> error + ContentBlock list" where
  "pushToolUses parse [] content = Inr content"
| "pushToolUses parse (toolCall # rest) content =
     (case parse (fn_arguments (tc_function toolCall)) of
        None \<Rightarrow> Inl SyntaxError
      | Some input \<Rightarrow>
          pushToolUses parse rest
            (content @ [ToolUseBlock (tc_id toolCall) (fn_name (tc_function toolCall)) input]))"

definition translateResponse :: "(string \<Rightarrow> json option) \<Rightarrow> ChatCompletionsResponse \<Rightarrow> string
    \<Rightarrow> error + MessagesResponse" where
  "translateResponse parse cerebrasResponse originalModel =
    (case resp_choices cerebrasResponse of
       [] \<Rightarrow> Inl NoChoices
     | choice # _ \<Rightarrow>
        (let content1 = (if truthy (msg_content (ch_message choice))
                         then [TextBlock (the (msg_content (ch_message choice)))] else [])
         in case (case msg_tool_calls (ch_message choice) of
                    None \<Rightarrow> Inr content1
                  | Some toolCalls \<Rightarrow> pushToolUses parse toolCalls content1) of
              Inl e \<Rightarrow> Inl e
            | Inr content2 \<Rightarrow>
                Inr \<lparr>r_id = ''msg_'' @ resp_id cerebrasResponse,
                     r_model = originalModel,
                     r_content = (if length content2 = 0 then [TextBlock []] else content2),
                     r_stop_reason = translateStopReason (ch_finish_reason choice)
                                       (msg_tool_calls (ch_message choice)),
                     r_stop_sequence = None,
                     r_input_tokens = prompt_tokens (resp_usage cerebrasResponse),
                     r_output_tokens = completion_tokens (resp_usage cerebrasResponse)\<rparr>))"

section \<open>The streaming translator\<close>

record ToolCallState =
  ts_id :: string
  ts_name :: string
  argumentsBuffer :: string
  startEventSent :: bool

text \<open>
  \<^verbatim>\<open>toolCallStates\<close> is a \<^verbatim>\<open>Map\<close>, which iterates in insertion order: an association list
  with \<^const>\<open>map_of\<close> for \<^verbatim>\<open>get\<close>, \<^const>\<open>AList.update\<close> for \<^verbatim>\<open>set\<close> and \<^const>\<open>length\<close> for
  \<^verbatim>\<open>size\<close>.  The translator mutates the state in place; here each step returns the new
  state next to what it emits.
\<close>

record StreamState =
  messageId :: string
  model :: string
  contentBlocks :: "ContentBlock list"
  currentBlockIndex :: int
  toolCallStates :: "(int \<times> ToolCallState) list"
  inputTokens :: int
  outputTokens :: int
  textBuffer :: string
  textBlockStarted :: bool

text \<open>\<open>generatedId\<close> is the random string that \<^verbatim>\<open>generateId()\<close> returns.\<close>

definition createStreamState :: "string \<Rightarrow> string \<Rightarrow> StreamState" where
  "createStreamState generatedId originalModel =
    \<lparr>messageId = ''msg_'' @ generatedId,
     model = originalModel,
     contentBlocks = [],
     currentBlockIndex = -1,
     toolCallStates = [],
     inputTokens = 0,
     outputTokens = 0,
     textBuffer = [],
     textBlockStarted = False\<rparr>"

text \<open>The block under \<^verbatim>\<open>if (delta.content)\<close>.\<close>

definition handleText :: "string option \<Rightarrow> StreamState \<Rightarrow> StreamEvent list \<times> StreamState" where
  "handleText content state =
    (if truthy content then
       (let (events1, state1) =
              (if \<not> textBlockStarted state then
                 ([ContentBlockStart (currentBlockIndex state + 1) (TextBlock [])],
                  state\<lparr>textBlockStarted := True,
                        currentBlockIndex := currentBlockIndex state + 1\<rparr>)
               else ([], state));
            state2 = state1\<lparr>textBuffer := textBuffer state1 @ the content\<rparr>
        in (events1 @ [ContentBlockDelta (currentBlockIndex state2) (TextDelta (the content))],
            state2))
     else ([], state))"

text \<open>``Close text block if needed'', at the head of the block under \<^verbatim>\<open>if (delta.tool_calls)\<close>.\<close>

definition closeTextForToolCalls :: "StreamState \<Rightarrow> StreamEvent list \<times> StreamState" where
  "closeTextForToolCalls state =
    (if textBlockStarted state \<and> textBuffer state \<noteq> [] then
       ([ContentBlockStop (currentBlockIndex state)],
        state\<lparr>contentBlocks := contentBlocks state @ [TextBlock (textBuffer state)],
              textBlockStarted := False,
              textBuffer := []\<rparr>)
     else ([], state))"

text \<open>
  One turn of the loop over \<^verbatim>\<open>delta.tool_calls\<close>.  \<^verbatim>\<open>toolState\<close> is a reference to the
  entry of the map, so its updates are written back under the same key.
\<close>

definition handleToolCall :: "DeltaToolCall \<Rightarrow> StreamState \<Rightarrow> StreamEvent list \<times> StreamState" where
  "handleToolCall toolCall state =
    (let name = (case dtc_function toolCall of None \<Rightarrow> None | Some f \<Rightarrow> dfn_name f);
         arguments = (case dtc_function toolCall of None \<Rightarrow> None | Some f \<Rightarrow> dfn_arguments f);
         found = map_of (toolCallStates state) (dtc_index toolCall);
         (toolState, state1) =
           (if found = None \<and> truthy (dtc_id toolCall) then
              (let new = \<lparr>ts_id = the (dtc_id toolCall),
                          ts_name = (case name of None \<Rightarrow> [] | Some n \<Rightarrow> n),
                          argumentsBuffer = [],
                          startEventSent = False\<rparr>
               in (Some new,
                   state\<lparr>currentBlockIndex := currentBlockIndex state + 1,
                         toolCallStates :=
                           AList.update (dtc_index toolCall) new (toolCallStates state)\<rparr>))
            else (found, state))
     in case toolState of
          None \<Rightarrow> ([], state1)
        | Some toolState0 \<Rightarrow>
           (let toolState1 = (if truthy name then toolState0\<lparr>ts_name := the name\<rparr>
                              else toolState0);
                (events1, toolState2) =
                  (if \<not> startEventSent toolState1 \<and> ts_id toolState1 \<noteq> []
                      \<and> ts_name toolState1 \<noteq> [] then
                     ([ContentBlockStart (currentBlockIndex state1)
                         (ToolUseBlock (ts_id toolState1) (ts_name toolState1) (JObj []))],
                      toolState1\<lparr>startEventSent := True\<rparr>)
                   else ([], toolState1));
                (events2, toolState3) =
                  (if truthy arguments then
                     ([ContentBlockDelta (currentBlockIndex state1) (InputJsonDelta (the arguments))],
                      toolState2\<lparr>argumentsBuffer := argumentsBuffer toolState2 @ the arguments\<rparr>)
                   else ([], toolState2))
            in (events1 @ events2,
                state1\<lparr>toolCallStates :=
                         AList.update (dtc_index toolCall) toolState3 (toolCallStates state1)\<rparr>)))"

fun handleToolCalls :: "DeltaToolCall list \<Rightarrow> StreamState \<Rightarrow> StreamEvent list \<times> StreamState" where
  "handleToolCalls [] state = ([], state)"
| "handleToolCalls (toolCall # rest) state =
     (let (events1, state1) = handleToolCall toolCall state;
          (events2, state2) = handleToolCalls rest state1
      in (events1 @ events2, state2))"

text \<open>
  ``Close any open tool call blocks'': the loop over the entries of \<^verbatim>\<open>toolCallStates\<close>.  The
  stop event is pushed before \<^verbatim>\<open>JSON.parse\<close> runs; when that throws, the events of the
  call are lost with the exception, and the blocks pushed so far stay in the state.
\<close>

fun closeToolCalls :: "(string \<Rightarrow> json option) \<Rightarrow> (int \<times> ToolCallState) list \<Rightarrow> StreamState
    \<Rightarrow> (error + StreamEvent list) \<times> StreamState" where
  "closeToolCalls parse [] state = (Inr [], state)"
| "closeToolCalls parse ((index, toolState) # rest) state =
     (if startEventSent toolState then
        (case (if argumentsBuffer toolState \<noteq> [] then parse (argumentsBuffer toolState)
               else Some (JObj [])) of
           None \<Rightarrow> (Inl SyntaxError, state)
         | Some input \<Rightarrow>
            (case closeToolCalls parse rest
                    (state\<lparr>contentBlocks := contentBlocks state @
                              [ToolUseBlock (ts_id toolState) (ts_name toolState) input]\<rparr>) of
               (Inl e, state1) \<Rightarrow> (Inl e, state1)
             | (Inr events, state1) \<Rightarrow>
                 (Inr (ContentBlockStop
                         (currentBlockIndex state
                            - (int (length (toolCallStates state)) - 1 - index)) # events),
                  state1)))
      else closeToolCalls parse rest state)"

text \<open>The block under \<^verbatim>\<open>if (choice.finish_reason)\<close>.\<close>

definition handleFinish :: "(string \<Rightarrow> json option) \<Rightarrow> string option \<Rightarrow> StreamState
    \<Rightarrow> (error + StreamEvent list) \<times> StreamState" where
  "handleFinish parse finish_reason state =
    (let (events1, state1) =
           (if textBlockStarted state then
              ([ContentBlockStop (currentBlockIndex state)],
               state\<lparr>contentBlocks := contentBlocks state @ [TextBlock (textBuffer state)]\<rparr>)
            else ([], state))
     in case closeToolCalls parse (toolCallStates state1) state1 of
          (Inl e, state2) \<Rightarrow> (Inl e, state2)
        | (Inr events2, state2) \<Rightarrow>
           (let hasToolCalls = (length (toolCallStates state2) > 0);
                stopReason = translateStopReason finish_reason
                   (if hasToolCalls
                    then Some [\<lparr>tc_id = [], tc_function = \<lparr>fn_name = [], fn_arguments = []\<rparr>\<rparr>]
                    else None)
            in (Inr (events1 @ events2 @
                     [MessageDelta (case stopReason of None \<Rightarrow> end_turn | Some r \<Rightarrow> r)
                        None (outputTokens state2),
                      MessageStop]),
                state2)))"

text \<open>
  \<^verbatim>\<open>translateStreamChunk(chunk, state)\<close>: the events returned (or the exception thrown) and
  the state as the call leaves it.
\<close>

definition translateStreamChunk :: "(string \<Rightarrow> json option) \<Rightarrow> ChatCompletionsChunk \<Rightarrow> StreamState
    \<Rightarrow> (error + StreamEvent list) \<times> StreamState" where
  "translateStreamChunk parse chunk state =
    (case chunk_choices chunk of
       [] \<Rightarrow> (Inr [], state)
     | choice # _ \<Rightarrow>
        (let delta = cc_delta choice;
             (events1, state1) = handleText (delta_content delta) state;
             (events2, state2) =
               (case delta_tool_calls delta of
                  None \<Rightarrow> ([], state1)
                | Some tool_calls \<Rightarrow>
                   (let (eventsA, stateA) = closeTextForToolCalls state1;
                        (eventsB, stateB) = handleToolCalls tool_calls stateA
                    in (eventsA @ eventsB, stateB)))
         in if truthy (cc_finish_reason choice) then
              (case handleFinish parse (cc_finish_reason choice) state2 of
                 (Inl e, state3) \<Rightarrow> (Inl e, state3)
               | (Inr events3, state3) \<Rightarrow> (Inr (events1 @ events2 @ events3), state3))
            else (Inr (events1 @ events2), state2)))"

text \<open>
  The loop of \<^verbatim>\<open>handleStreamingResponse\<close> that feeds the chunks to the translator in
  arrival order and writes out what it returns: the events written, the exception that
  ended the loop if one did, and the state at the end.
\<close>

fun feedChunks :: "(string \<Rightarrow> json option) \<Rightarrow> ChatCompletionsChunk list \<Rightarrow> StreamState
    \<Rightarrow> (StreamEvent list \<times> error option) \<times> StreamState" where
  "feedChunks parse [] state = (([], None), state)"
| "feedChunks parse (chunk # rest) state =
     (case translateStreamChunk parse chunk state of
        (Inl e, state1) \<Rightarrow> (([], Some e), state1)
      | (Inr events, state1) \<Rightarrow>
         (case feedChunks parse rest state1 of
            ((events', err), state2) \<Rightarrow> ((events @ events', err), state2)))"

section \<open>Inputs used in the examples\<close>

text \<open>
  Chunks as the provider sends them, with one choice each: a text delta, a list of
  tool-call deltas, and a finish signal with an empty delta.  \<open>parseEmptyObjectOnly\<close> is a
  stand-in for \<^verbatim>\<open>JSON.parse\<close> that agrees with it on the text \<^verbatim>\<open>{}\<close> and rejects everything
  else; the examples parse nothing else.
\<close>

definition textChunk :: "string \<Rightarrow> ChatCompletionsChunk" where
  "textChunk t =
    \<lparr>chunk_choices = [\<lparr>cc_delta = \<lparr>delta_content = Some t, delta_tool_calls = None\<rparr>,
                       cc_finish_reason = None\<rparr>]\<rparr>"

definition toolCallChunk :: "DeltaToolCall list \<Rightarrow> ChatCompletionsChunk" where
  "toolCallChunk toolCalls =
    \<lparr>chunk_choices = [\<lparr>cc_delta = \<lparr>delta_content = None, delta_tool_calls = Some toolCalls\<rparr>,
                       cc_finish_reason = None\<rparr>]\<rparr>"

definition finishChunk :: "string \<Rightarrow> ChatCompletionsChunk" where
  "finishChunk reason =
    \<lparr>chunk_choices = [\<lparr>cc_delta = \<lparr>delta_content = None, delta_tool_calls = None\<rparr>,
                       cc_finish_reason = Some reason\<rparr>]\<rparr>"

definition parseEmptyObjectOnly :: "string \<Rightarrow> json option" where
  "parseEmptyObjectOnly s = (if s = ''{}'' then Some (JObj []) else None)"

text \<open>
  A schema with an entry named \<^verbatim>\<open>__proto__\<close>, as \<^verbatim>\<open>JSON.parse\<close> returns it for the text
  \<^verbatim>\<open>{"type":"object","__proto__":{"properties":{"a":{"type":"string"}}}}\<close>, and the object
  that \<^verbatim>\<open>translateTool\<close> passes to \<^verbatim>\<open>cleanSchema\<close> for a tool whose \<^verbatim>\<open>input_schema\<close>
  declares one property \<^verbatim>\<open>x\<close> with that schema and requires it.
\<close>

definition protoKeySchema :: jsvalue where
  "protoKeySchema =
    VObj None
      [(''type'', VStr ''object''),
       (''__proto__'',
          VObj None [(''properties'', VObj None [(''a'', VObj None [(''type'', VStr ''string'')])])])]"

definition protoKeyParameters :: jsvalue where
  "protoKeyParameters =
    VObj None
      [(''type'', VStr ''object''),
       (''properties'', VObj None [(''x'', protoKeySchema)]),
       (''required'', VArr [VStr ''x''])]"

section \<open>Observations used in the statements\<close>

text \<open>
  Tool results as the specification describes them: the \<^verbatim>\<open>tool_result\<close> blocks of a
  message in order, the texts of the \<^verbatim>\<open>text\<close> blocks of a result, and the \<^verbatim>\<open>tool\<close>-role
  message that one block becomes (its content is the string form of the result, or the
  plain text blocks joined by newline, with the prefix \<^verbatim>\<open>Error: \<close> for an error result).
\<close>

fun toolResultBlocks :: "ContentBlock list \<Rightarrow> (string \<times> ToolResultContent \<times> bool option) list" where
  "toolResultBlocks [] = []"
| "toolResultBlocks (ToolResultBlock tool_use_id content is_error # blocks) =
     (tool_use_id, content, is_error) # toolResultBlocks blocks"
| "toolResultBlocks (_ # blocks) = toolResultBlocks blocks"

fun textsOf :: "ContentBlock list \<Rightarrow> string list" where
  "textsOf [] = []"
| "textsOf (TextBlock t # blocks) = t # textsOf blocks"
| "textsOf (_ # blocks) = textsOf blocks"

definition spec_toolMessage :: "string \<times> ToolResultContent \<times> bool option \<Rightarrow> ChatMessage" where
  "spec_toolMessage r =
    (case r of (tool_use_id, content, is_error) \<Rightarrow>
       ToolMessage
         ((if is_error = Some True then ''Error: '' else [])
            @ (case content of
                 StringContent s \<Rightarrow> s
               | BlockContent blocks \<Rightarrow> join newline (textsOf blocks)))
         tool_use_id)"

fun isToolMessage :: "ChatMessage \<Rightarrow> bool" where
  "isToolMessage (ToolMessage _ _) = True"
| "isToolMessage _ = False"

text \<open>The \<^verbatim>\<open>usage.output_tokens\<close> of the \<^verbatim>\<open>message_delta\<close> events of a stream, in order.\<close>

fun messageDeltaTokens :: "StreamEvent list \<Rightarrow> int list" where
  "messageDeltaTokens [] = []"
| "messageDeltaTokens (MessageDelta _ _ output_tokens # events) =
     output_tokens # messageDeltaTokens events"
| "messageDeltaTokens (_ # events) = messageDeltaTokens events"

text \<open>
  The index given to a content unit is the value of \<^verbatim>\<open>currentBlockIndex\<close> right after the
  step that opens or registers the unit.  A text delta opens a text unit when it turns
  \<^verbatim>\<open>textBlockStarted\<close> from false to true; a tool-call delta registers a unit when its
  positional index becomes a key of \<^verbatim>\<open>toolCallStates\<close>.  \<open>assignedIndices\<close> lists the
  indices given while a sequence of chunks is fed to the translator, in the order in which
  they are given.
\<close>

definition textAssigned :: "string option \<Rightarrow> StreamState \<Rightarrow> int list" where
  "textAssigned content state =
    (let state' = snd (handleText content state)
     in if \<not> textBlockStarted state \<and> textBlockStarted state'
        then [currentBlockIndex state'] else [])"

definition toolCallAssigned :: "DeltaToolCall \<Rightarrow> StreamState \<Rightarrow> int list" where
  "toolCallAssigned toolCall state =
    (let state' = snd (handleToolCall toolCall state)
     in if map_of (toolCallStates state) (dtc_index toolCall) = None
           \<and> map_of (toolCallStates state') (dtc_index toolCall) \<noteq> None
        then [currentBlockIndex state'] else [])"

fun toolCallsAssigned :: "DeltaToolCall list \<Rightarrow> StreamState \<Rightarrow> int list" where
  "toolCallsAssigned [] state = []"
| "toolCallsAssigned (toolCall # rest) state =
     toolCallAssigned toolCall state
       @ toolCallsAssigned rest (snd (handleToolCall toolCall state))"

definition chunkAssigned :: "ChatCompletionsChunk \<Rightarrow> StreamState \<Rightarrow> int list" where
  "chunkAssigned chunk state =
    (case chunk_choices chunk of
       [] \<Rightarrow> []
     | choice # _ \<Rightarrow>
        textAssigned (delta_content (cc_delta choice)) state
        @ (case delta_tool_calls (cc_delta choice) of
             None \<Rightarrow> []
           | Some tool_calls \<Rightarrow>
               toolCallsAssigned tool_calls
                 (snd (closeTextForToolCalls
                    (snd (handleText (delta_content (cc_delta choice)) state))))))"

fun assignedIndices :: "(string \<Rightarrow> json option) \<Rightarrow> ChatCompletionsChunk list \<Rightarrow> StreamState
    \<Rightarrow> int list" where
  "assignedIndices parse [] state = []"
| "assignedIndices parse (chunk # rest) state =
     chunkAssigned chunk state
       @ (case translateStreamChunk parse chunk state of
            (Inl e, state1) \<Rightarrow> []
          | (Inr events, state1) \<Rightarrow> assignedIndices parse rest state1)"

text \<open>\<open>countsFrom b xs\<close>: the list \<open>xs\<close> is \<open>b, b + 1, b + 2, \<dots>\<close>.\<close>

fun countsFrom :: "int \<Rightarrow> int list \<Rightarrow> bool" where
  "countsFrom b [] = True"
| "countsFrom b (x # xs) = (x = b \<and> countsFrom (b + 1) xs)"

text \<open>
  A value is \<open>plain\<close> when every object in it has the prototype \<^verbatim>\<open>Object.prototype\<close> and no
  entry named \<^verbatim>\<open>__proto__\<close>: parsed JSON in which that key does not occur.  \<open>closeEntries\<close>
  is what \<open>closeObjectType\<close> does to the entries of an object with that prototype.
\<close>

fun plain :: "jsvalue \<Rightarrow> bool" where
  "plain (VArr xs) = (\<forall>x \<in> set xs. plain x)"
| "plain (VObj proto es) =
     (proto = None \<and> map_of es ''__proto__'' = None \<and> (\<forall>e \<in> set es. plain (snd e)))"
| "plain _ = True"

definition closeEntries :: "(string \<times> jsvalue) list \<Rightarrow> (string \<times> jsvalue) list" where
  "closeEntries r =
    (if map_of r ''type'' = Some (VStr ''object'') then
       (let r1 = AList.update ''additionalProperties'' (VBool False) r in
        if falsy (map_of r1 ''properties'') \<and> falsy (map_of r1 ''anyOf'')
           \<and> falsy (map_of r1 ''oneOf'') \<and> falsy (map_of r1 ''allOf'')
        then AList.update ''properties'' (VObj None []) r1
        else r1)
     else r)"

section \<open>The sanitizer and the key \<^verbatim>\<open>__proto__\<close>\<close>

text \<open>
  For every key but \<^verbatim>\<open>__proto__\<close> the assignment is an update of the own entries, and a
  read on an object with the prototype \<^verbatim>\<open>Object.prototype\<close> is a read of its own entries.
\<close>

lemma setProp_ordinary:
  "k \<noteq> ''__proto__'' \<Longrightarrow> setProp k v (proto, es) = (proto, AList.update k v es)"
  by (simp add: setProp_def)

lemma getProp_ordinary: "getProp (VObj None es) k = map_of es k"
  by (simp split: option.splits)

lemma objectValue_pair: "objectValue (proto, es) = VObj proto es"
  by (simp add: objectValue_def)

lemma closeObjectType_ordinary: "closeObjectType (None, r) = (None, closeEntries r)"
  by (simp add: closeObjectType_def closeEntries_def objectValue_pair Let_def
        setProp_ordinary getProp_ordinary del: getProp.simps)

lemma digit_not_underscore: "m < 10 \<Longrightarrow> ''0123456789'' ! m \<noteq> CHR ''_''"
proof -
  assume "m < 10"
  then have "''0123456789'' ! m \<in> set ''0123456789''" by (intro nth_mem) simp
  then show ?thesis by auto
qed

lemma indexKey_chars: "CHR ''_'' \<notin> set (indexKey n)"
proof (induction n rule: indexKey.induct)
  case (1 n)
  show ?case
  proof (cases "n < 10")
    case True
    then show ?thesis using digit_not_underscore[of n] by (subst indexKey.simps) auto
  next
    case False
    then show ?thesis using "1.IH" digit_not_underscore[of "n mod 10"]
      by (subst indexKey.simps) auto
  qed
qed

lemma indexKey_not_proto: "indexKey n \<noteq> ''__proto__''"
proof
  assume "indexKey n = ''__proto__''"
  then have "CHR ''_'' \<in> set (indexKey n)" by simp
  with indexKey_chars show False by blast
qed

lemma plain_entries_keys: "plain s \<Longrightarrow> (k, v) \<in> set (entries s) \<Longrightarrow> k \<noteq> ''__proto__''"
proof (cases s)
  case (VArr xs)
  assume "(k, v) \<in> set (entries s)"
  with VArr have "k \<in> set (map indexKey [0..<length xs])" by (auto dest: set_zip_leftD)
  then show ?thesis using indexKey_not_proto by auto
next
  case (VObj proto es)
  assume "plain s" "(k, v) \<in> set (entries s)"
  with VObj have n: "map_of es ''__proto__'' = None" and m: "(k, v) \<in> set es" by simp_all
  from n have "''__proto__'' \<notin> fst ` set es" by (simp add: map_of_eq_None_iff)
  moreover from m have "k \<in> fst ` set es" by force
  ultimately show ?thesis by blast
qed auto

lemma plain_entries_values: "plain s \<Longrightarrow> (k, v) \<in> set (entries s) \<Longrightarrow> plain v"
  by (cases s) (auto dest: set_zip_rightD)

lemma plain_elems: "plain s \<Longrightarrow> x \<in> set (elems s) \<Longrightarrow> plain x"
  by (cases s) auto

lemma ordinary_loop:
  "(\<And>k v. (k, v) \<in> set es \<Longrightarrow> k \<noteq> ''__proto__'') \<Longrightarrow>
   fold (\<lambda>(k, v) r. if P k then r else setProp k (F k v) r) es (proto, acc)
   = (proto, fold (\<lambda>(k, v) r. if P k then r else AList.update k (F k v) r) es acc)"
proof (induction es arbitrary: acc)
  case Nil
  then show ?case by simp
next
  case (Cons e es)
  obtain k v where e: "e = (k, v)" by (cases e)
  with Cons.prems have k: "k \<noteq> ''__proto__''" by auto
  have rest: "\<And>k v. (k, v) \<in> set es \<Longrightarrow> k \<noteq> ''__proto__''" using Cons.prems by auto
  show ?case using e k Cons.IH[OF rest] by (simp add: setProp_ordinary)
qed

lemmas ordinary_props_loop = ordinary_loop [of _ "\<lambda>_. False", simplified]

text \<open>
  Facts about a loop of assignments \<^verbatim>\<open>result[key] = F(key, value)\<close> to own entries that
  skips the keys in \<open>P\<close>: the keys of the result are distinct, every entry was computed by
  \<open>F\<close>, and the loop copies a list of distinct keys whose values \<open>F\<close> leaves alone.
\<close>

lemma update_fresh: "k \<notin> fst ` set al \<Longrightarrow> AList.update k v al = al @ [(k, v)]"
  by (induction al) auto

lemma set_update_subset: "set (AList.update k v al) \<subseteq> insert (k, v) (set al)"
  by (induction al) auto

lemma assign_loop_distinct:
  "distinct (map fst acc) \<Longrightarrow>
   distinct (map fst (fold (\<lambda>(k, v) r. if P k then r else AList.update k (F k v) r) es acc))"
  by (induction es arbitrary: acc) (auto simp: distinct_update)

lemma assign_loop_values:
  "(k, w) \<in> set (fold (\<lambda>(k, v) r. if P k then r else AList.update k (F k v) r) es acc) \<Longrightarrow>
   (k, w) \<in> set acc \<or> (\<exists>v. (k, v) \<in> set es \<and> \<not> P k \<and> w = F k v)"
proof (induction es arbitrary: acc)
  case Nil
  then show ?case by simp
next
  case (Cons e es)
  obtain k' v' where e: "e = (k', v')" by (cases e)
  show ?case
  proof (cases "P k'")
    case True
    with Cons e show ?thesis by auto
  next
    case False
    with Cons.prems e
    have "(k, w) \<in> set (fold (\<lambda>(k, v) r. if P k then r else AList.update k (F k v) r) es
             (AList.update k' (F k' v') acc))" by simp
    from Cons.IH[OF this] have
      "(k, w) \<in> set (AList.update k' (F k' v') acc) \<or> (\<exists>v. (k, v) \<in> set es \<and> \<not> P k \<and> w = F k v)" .
    with set_update_subset[of k' "F k' v'" acc] False e show ?thesis by auto
  qed
qed

lemma assign_loop_fixed:
  "distinct (map fst es) \<Longrightarrow> fst ` set es \<inter> fst ` set acc = {} \<Longrightarrow>
   (\<And>k v. (k, v) \<in> set es \<Longrightarrow> \<not> P k \<and> G k v = v) \<Longrightarrow>
   fold (\<lambda>(k, v) r. if P k then r else AList.update k (G k v) r) es acc = acc @ es"
proof (induction es arbitrary: acc)
  case Nil
  then show ?case by simp
next
  case (Cons e es)
  obtain k v where e: "e = (k, v)" by (cases e)
  from Cons.prems e have fresh: "k \<notin> fst ` set acc" by auto
  from Cons.prems(3)[of k v] e have kv: "\<not> P k" "G k v = v" by auto
  have d: "distinct (map fst es)" using Cons.prems(1) by simp
  have disj: "fst ` set es \<inter> fst ` set (acc @ [(k, v)]) = {}"
    using Cons.prems(1,2) e by auto
  have "fold (\<lambda>(k, v) r. if P k then r else AList.update k (G k v) r) es (acc @ [(k, v)])
        = (acc @ [(k, v)]) @ es"
    by (rule Cons.IH[OF d disj]) (use Cons.prems(3) in auto)
  with e kv fresh show ?case by (simp add: update_fresh)
qed

lemmas props_loop_distinct = assign_loop_distinct [of _ "\<lambda>_. False", simplified]
lemmas props_loop_values = assign_loop_values [of _ _ "\<lambda>_. False", simplified]
lemmas props_loop_fixed = assign_loop_fixed [of _ _ "\<lambda>_. False", simplified]

lemma closeEntries_idem: "closeEntries (closeEntries r) = closeEntries r"
  by (auto simp: closeEntries_def Let_def update_conv' update_triv)

lemma closeEntries_distinct:
  "distinct (map fst r) \<Longrightarrow> distinct (map fst (closeEntries r))"
  by (simp add: closeEntries_def Let_def distinct_update)

lemma closeEntries_entries:
  "(k, w) \<in> set (closeEntries r) \<Longrightarrow>
   (k, w) \<in> set r \<or> (k, w) = (''additionalProperties'', VBool False)
     \<or> (k, w) = (''properties'', VObj None [])"
  using set_update_subset[of "''additionalProperties''" "VBool False" r]
    set_update_subset[of "''properties''" "VObj None []" "AList.update ''additionalProperties'' (VBool False) r"]
  by (auto simp: closeEntries_def Let_def split: if_splits)

lemma cleanSchema_ordinary:
  assumes "\<And>k v. (k, v) \<in> set (entries s) \<Longrightarrow> k \<noteq> ''__proto__''"
  shows "cleanSchema s = VObj None (closeEntries
           (fold (\<lambda>(key, value) result.
                    if key \<in> set UNSUPPORTED_SCHEMA_FIELDS then result
                    else AList.update key (cleanField key value) result)
                 (entries s) []))"
  by (simp add: cleanSchema.simps[of s] ordinary_loop[OF assms] closeObjectType_ordinary
        objectValue_pair)

lemma cleanProperties_ordinary:
  assumes "\<And>k v. (k, v) \<in> set (entries s) \<Longrightarrow> k \<noteq> ''__proto__''"
  shows "cleanProperties s = VObj None
           (fold (\<lambda>(propKey, propValue) newProps.
                    AList.update propKey (cleanItem propValue) newProps)
                 (entries s) [])"
  by (simp add: cleanProperties.simps[of s] ordinary_props_loop[OF assms] objectValue_pair)

lemma cleanSchema_is_object: "\<exists>p r. cleanSchema s = VObj p r"
  by (simp add: cleanSchema.simps objectValue_def)

lemma cleanProperties_is_object: "\<exists>p r. cleanProperties s = VObj p r"
  by (simp add: cleanProperties.simps objectValue_def)

lemma cleanField_additionalProperties:
  "cleanField ''additionalProperties'' (VBool False) = VBool False"
  by (simp add: cleanField.simps)

lemma cleanField_properties_empty: "cleanField ''properties'' (VObj None []) = VObj None []"
  by (simp add: cleanField.simps cleanProperties.simps objectValue_def)

lemma cleanSchema_fixed:
  assumes d: "distinct (map fst r)"
    and nk: "\<And>k w. (k, w) \<in> set r \<Longrightarrow> k \<notin> set UNSUPPORTED_SCHEMA_FIELDS"
    and np: "\<And>k w. (k, w) \<in> set r \<Longrightarrow> k \<noteq> ''__proto__''"
    and fx: "\<And>k w. (k, w) \<in> set r \<Longrightarrow> cleanField k w = w"
  shows "cleanSchema (VObj None (closeEntries r)) = VObj None (closeEntries r)"
proof -
  let ?r' = "closeEntries r"
  have d': "distinct (map fst ?r')" using d by (rule closeEntries_distinct)
  have ok: "k \<notin> set UNSUPPORTED_SCHEMA_FIELDS \<and> k \<noteq> ''__proto__'' \<and> cleanField k w = w"
    if "(k, w) \<in> set ?r'" for k w
  proof -
    from closeEntries_entries[OF that] consider "(k, w) \<in> set r"
      | "(k, w) = (''additionalProperties'', VBool False)" | "(k, w) = (''properties'', VObj None [])"
      by blast
    then show ?thesis
    proof cases
      case 1
      then show ?thesis using nk np fx by blast
    next
      case 2
      then show ?thesis
        by (simp add: cleanField_additionalProperties UNSUPPORTED_SCHEMA_FIELDS_def)
    next
      case 3
      then show ?thesis
        by (simp add: cleanField_properties_empty UNSUPPORTED_SCHEMA_FIELDS_def)
    qed
  qed
  have f: "fold (\<lambda>(key, value) result.
                if key \<in> set UNSUPPORTED_SCHEMA_FIELDS then result
                else AList.update key (cleanField key value) result) ?r' [] = [] @ ?r'"
    by (rule assign_loop_fixed[OF d']) (use ok in auto)
  have e: "\<And>k v. (k, v) \<in> set (entries (VObj None ?r')) \<Longrightarrow> k \<noteq> ''__proto__''"
    using ok by simp
  have "cleanSchema (VObj None ?r') = VObj None (closeEntries
           (fold (\<lambda>(key, value) result.
                    if key \<in> set UNSUPPORTED_SCHEMA_FIELDS then result
                    else AList.update key (cleanField key value) result)
                 (entries (VObj None ?r')) []))"
    by (rule cleanSchema_ordinary[OF e])
  then show ?thesis using f by (simp add: closeEntries_idem)
qed

lemma cleanProperties_fixed:
  assumes d: "distinct (map fst r)"
    and np: "\<And>k w. (k, w) \<in> set r \<Longrightarrow> k \<noteq> ''__proto__''"
    and fx: "\<And>k w. (k, w) \<in> set r \<Longrightarrow> cleanItem w = w"
  shows "cleanProperties (VObj None r) = VObj None r"
proof -
  have f: "fold (\<lambda>(propKey, propValue) newProps.
                AList.update propKey (cleanItem propValue) newProps) r [] = [] @ r"
    by (rule props_loop_fixed[OF d]) (use fx in auto)
  have e: "\<And>k v. (k, v) \<in> set (entries (VObj None r)) \<Longrightarrow> k \<noteq> ''__proto__''"
    using np by simp
  have "cleanProperties (VObj None r) = VObj None
           (fold (\<lambda>(propKey, propValue) newProps.
                    AList.update propKey (cleanItem propValue) newProps)
                 (entries (VObj None r)) [])"
    by (rule cleanProperties_ordinary[OF e])
  then show ?thesis using f by simp
qed

text \<open>
  On plain values, that is, as long as no object has an entry named \<^verbatim>\<open>__proto__\<close>, cleaning a
  cleaned schema changes nothing.
\<close>

lemma clean_idempotent_plain:
  "plain s \<Longrightarrow> cleanSchema (cleanSchema s) = cleanSchema s"
  "plain v \<Longrightarrow> cleanField k (cleanField k v) = cleanField k v"
  "plain p \<Longrightarrow> cleanProperties (cleanProperties p) = cleanProperties p"
  "plain i \<Longrightarrow> cleanItem (cleanItem i) = cleanItem i"
proof (induction s and k v and p and i rule: cleanSchema_cleanField_cleanProperties_cleanItem.induct)
  case (1 schema)
  note keys = plain_entries_keys[OF "1.prems"]
  define r where "r = fold (\<lambda>(key, value) result.
                if key \<in> set UNSUPPORTED_SCHEMA_FIELDS then result
                else AList.update key (cleanField key value) result) (entries schema) []"
  have d: "distinct (map fst r)" unfolding r_def by (rule assign_loop_distinct) simp
  have nk: "k \<notin> set UNSUPPORTED_SCHEMA_FIELDS" if "(k, w) \<in> set r" for k w
    using assign_loop_values[OF that[unfolded r_def]] by auto
  have np: "k \<noteq> ''__proto__''" if "(k, w) \<in> set r" for k w
    using assign_loop_values[OF that[unfolded r_def]] keys by auto
  have fx: "cleanField k w = w" if "(k, w) \<in> set r" for k w
  proof -
    from assign_loop_values[OF that[unfolded r_def]]
    obtain v where v: "(k, v) \<in> set (entries schema)" "k \<notin> set UNSUPPORTED_SCHEMA_FIELDS"
      "w = cleanField k v" by auto
    from v(1) have "plain v" by (rule plain_entries_values[OF "1.prems"])
    with v show ?thesis using "1.IH"[of "(k, v)" k v] by simp
  qed
  have "cleanSchema schema = VObj None (closeEntries r)"
    unfolding r_def by (rule cleanSchema_ordinary) (rule keys)
  then show ?case using cleanSchema_fixed[OF d nk np fx] by simp
next
  case (2 key "value")
  obtain p1 r1 where r1: "cleanSchema value = VObj p1 r1" using cleanSchema_is_object by blast
  obtain p2 r2 where r2: "cleanProperties value = VObj p2 r2" using cleanProperties_is_object by blast
  note pl = "2.prems"
  have el: "plain x" if "x \<in> set (elems value)" for x using plain_elems[OF pl that] .
  show ?case
  proof (cases "key = ''properties'' \<and> isObjectType value")
    case True
    then have e: "cleanField key value = cleanProperties value" by (simp add: cleanField.simps)
    have "cleanField key (cleanProperties value) = cleanProperties (cleanProperties value)"
      using True r2 by (simp add: cleanField.simps)
    with e "2.IH"(1)[OF True pl] show ?thesis by simp
  next
    case n1: False
    show ?thesis
    proof (cases "key = ''items'' \<and> isObjectType value")
      case True
      then have e: "cleanField key value = cleanSchema value"
        using n1 by (simp add: cleanField.simps)
      have "cleanField key (cleanSchema value) = cleanSchema (cleanSchema value)"
        using True r1 by (simp add: cleanField.simps)
      with e "2.IH"(2)[OF n1 True pl] show ?thesis by simp
    next
      case n2: False
      show ?thesis
      proof (cases "key = ''anyOf'' \<and> isArray value")
        case True
        then have e: "cleanField key value = VArr (map cleanItem (elems value))"
          by (simp add: cleanField.simps)
        have "cleanField key (VArr (map cleanItem (elems value)))
              = VArr (map cleanItem (map cleanItem (elems value)))"
          using True by (simp add: cleanField.simps)
        moreover have "map cleanItem (map cleanItem (elems value)) = map cleanItem (elems value)"
          using "2.IH"(3)[OF n1 n2 True] el by simp
        ultimately show ?thesis using e by simp
      next
        case n3: False
        show ?thesis
        proof (cases "key = ''oneOf'' \<and> isArray value")
          case True
          then have e: "cleanField key value = VArr (map cleanItem (elems value))"
            by (simp add: cleanField.simps)
          have "cleanField key (VArr (map cleanItem (elems value)))
                = VArr (map cleanItem (map cleanItem (elems value)))"
            using True by (simp add: cleanField.simps)
          moreover have "map cleanItem (map cleanItem (elems value)) = map cleanItem (elems value)"
            using "2.IH"(4)[OF n1 n2 n3 True] el by simp
          ultimately show ?thesis using e by simp
        next
          case n4: False
          show ?thesis
          proof (cases "key = ''allOf'' \<and> isArray value")
            case True
            then have e: "cleanField key value = VArr (map cleanItem (elems value))"
              by (simp add: cleanField.simps)
            have "cleanField key (VArr (map cleanItem (elems value)))
                  = VArr (map cleanItem (map cleanItem (elems value)))"
              using True by (simp add: cleanField.simps)
            moreover have "map cleanItem (map cleanItem (elems value)) = map cleanItem (elems value)"
              using "2.IH"(5)[OF n1 n2 n3 n4 True] el by simp
            ultimately show ?thesis using e by simp
          next
            case n5: False
            show ?thesis
            proof (cases "isObjectType value \<and> \<not> isArray value")
              case True
              have e: "cleanField key value = cleanSchema value"
                using n1 n2 n3 n4 n5 True by (simp add: cleanField.simps)
              have "cleanField key (cleanSchema value) = cleanSchema (cleanSchema value)"
                using n1 n2 True r1 by (simp add: cleanField.simps)
              with e "2.IH"(6)[OF n1 n2 n3 n4 n5 True pl] show ?thesis by simp
            next
              case n6: False
              have "cleanField key value = value"
                by (subst cleanField.simps) (simp only: n1 n2 n3 n4 n5 n6 if_False)
              then show ?thesis by simp
            qed
          qed
        qed
      qed
    qed
  qed
next
  case (3 "value")
  note keys = plain_entries_keys[OF "3.prems"]
  define r where "r = fold (\<lambda>(propKey, propValue) newProps.
                AList.update propKey (cleanItem propValue) newProps) (entries value) []"
  have d: "distinct (map fst r)" unfolding r_def by (rule props_loop_distinct) simp
  have np: "k \<noteq> ''__proto__''" if "(k, w) \<in> set r" for k w
    using props_loop_values[OF that[unfolded r_def]] keys by auto
  have fx: "cleanItem w = w" if "(k, w) \<in> set r" for k w
  proof -
    from props_loop_values[OF that[unfolded r_def]]
    obtain v where v: "(k, v) \<in> set (entries value)" "w = cleanItem v" by auto
    from v(1) have "plain v" by (rule plain_entries_values[OF "3.prems"])
    with v show ?thesis using "3.IH"[of "(k, v)" k v] by simp
  qed
  have "cleanProperties value = VObj None r"
    unfolding r_def by (rule cleanProperties_ordinary) (rule keys)
  then show ?case using cleanProperties_fixed[OF d np fx] by simp
next
  case (4 item)
  obtain p1 r1 where r1: "cleanSchema item = VObj p1 r1" using cleanSchema_is_object by blast
  show ?case
  proof (cases "isObjectType item")
    case True
    then have "cleanItem item = cleanSchema item" by (simp add: cleanItem.simps)
    moreover have "cleanItem (cleanSchema item) = cleanSchema (cleanSchema item)"
      using r1 by (simp add: cleanItem.simps)
    ultimately show ?thesis using "4.IH"[OF True "4.prems"] by simp
  next
    case False
    then show ?thesis by (simp add: cleanItem.simps)
  qed
qed

text \<open>
  \<^bold>\<open>C7.\<close>  The schema sanitizer is not idempotent on every schema tree.  On the schema
  \<open>protoKeySchema\<close>, whose second entry is named \<^verbatim>\<open>__proto__\<close>, the first pass makes the cleaned
  value of that entry the prototype of the result: the result has type \<^verbatim>\<open>"object"\<close>, gets
  \<^verbatim>\<open>additionalProperties\<close>, and gets no \<^verbatim>\<open>properties\<close> of its own because it inherits one.
  The second pass sees the own entries only and adds the empty \<^verbatim>\<open>properties\<close>.  The two
  results differ in their own entries, and so do the two results for the parameters of a tool
  that declares a property with this schema.
\<close>

theorem cleanSchema_proto_key_not_idempotent:
  "cleanSchema protoKeySchema =
     VObj (Some (VObj None
               [(''properties'', VObj None [(''a'', VObj None [(''type'', VStr ''string'')])])]))
       [(''type'', VStr ''object''), (''additionalProperties'', VBool False)]
   \<and> cleanSchema (cleanSchema protoKeySchema) =
     VObj None
       [(''type'', VStr ''object''), (''additionalProperties'', VBool False),
        (''properties'', VObj None [])]
   \<and> entries (cleanSchema (cleanSchema protoKeySchema)) \<noteq> entries (cleanSchema protoKeySchema)
   \<and> cleanSchema protoKeyParameters =
     VObj None
       [(''type'', VStr ''object''),
        (''properties'', VObj None [(''x'', cleanSchema protoKeySchema)]),
        (''required'', VArr [VStr ''x'']),
        (''additionalProperties'', VBool False)]
   \<and> cleanSchema (cleanSchema protoKeyParameters) =
     VObj None
       [(''type'', VStr ''object''),
        (''properties'', VObj None [(''x'', cleanSchema (cleanSchema protoKeySchema))]),
        (''required'', VArr [VStr ''x'']),
        (''additionalProperties'', VBool False)]
   \<and> cleanSchema (cleanSchema protoKeyParameters) \<noteq> cleanSchema protoKeyParameters"
  by code_simp

section \<open>Fixed chunk sequences\<close>

lemmas stream_defs = textChunk_def toolCallChunk_def finishChunk_def createStreamState_def
  translateStreamChunk_def handleText_def handleFinish_def translateStopReason_def
  closeTextForToolCalls_def handleToolCall_def Let_def

text \<open>
  \<^bold>\<open>C1.\<close>  The chunks [text "Hel"], [text "lo"], [finish "stop"], fed in this order to the
  translator on a fresh state, whatever the generated id and the model name, produce exactly:
  start of unit 0 (text, empty), delta "Hel" on unit 0, delta "lo" on unit 0, stop of unit 0,
  the message delta with stop reason \<open>end_turn\<close>, and the message stop.  No exception ends the
  stream, and each delta carries the increment, not the accumulated text.
\<close>

theorem text_stream_events:
  "fst (feedChunks parse [textChunk ''Hel'', textChunk ''lo'', finishChunk ''stop'']
          (createStreamState generatedId originalModel))
   = ([ContentBlockStart 0 (TextBlock ''''),
       ContentBlockDelta 0 (TextDelta ''Hel''),
       ContentBlockDelta 0 (TextDelta ''lo''),
       ContentBlockStop 0,
       MessageDelta end_turn None 0,
       MessageStop], None)"
  by (simp add: stream_defs)

text \<open>
  \<^bold>\<open>C2.\<close>  The chunks [tool call at position 0 with id \<open>X\<close>, name "f", arguments ""],
  [tool call at position 0 with arguments "{}"], [finish "tool_calls"], fed in this order on a
  fresh state, produce exactly: start of unit 0 (tool use, id \<open>X\<close>, name "f", empty input),
  delta with partial JSON "{}" on unit 0, stop of unit 0, the message delta with stop reason
  \<open>tool_use\<close>, and the message stop; the state then holds one finished unit, the tool use with
  input the empty object.  \<open>X\<close> is an id, that is, not the empty string, and \<open>parse\<close> reads
  "{}" as the empty object, as \<^verbatim>\<open>JSON.parse\<close> does.
\<close>

theorem tool_stream_events:
  assumes "X \<noteq> []" and "parse ''{}'' = Some (JObj [])"
  shows "feedChunks parse
          [toolCallChunk [\<lparr>dtc_index = 0, dtc_id = Some X,
                           dtc_function = Some \<lparr>dfn_name = Some ''f'', dfn_arguments = Some ''''\<rparr>\<rparr>],
           toolCallChunk [\<lparr>dtc_index = 0, dtc_id = None,
                           dtc_function = Some \<lparr>dfn_name = None, dfn_arguments = Some ''{}''\<rparr>\<rparr>],
           finishChunk ''tool_calls'']
          (createStreamState generatedId originalModel)
   = (([ContentBlockStart 0 (ToolUseBlock X ''f'' (JObj [])),
        ContentBlockDelta 0 (InputJsonDelta ''{}''),
        ContentBlockStop 0,
        MessageDelta tool_use None 0,
        MessageStop], None),
      (createStreamState generatedId originalModel)
        \<lparr>contentBlocks := [ToolUseBlock X ''f'' (JObj [])],
         currentBlockIndex := 0,
         toolCallStates := [(0, \<lparr>ts_id = X, ts_name = ''f'', argumentsBuffer = ''{}'',
                                 startEventSent = True\<rparr>)]\<rparr>)"
  using assms by (simp add: stream_defs)

theorem tool_stream_events_witness:
  "feedChunks parseEmptyObjectOnly
          [toolCallChunk [\<lparr>dtc_index = 0, dtc_id = Some ''call_1'',
                           dtc_function = Some \<lparr>dfn_name = Some ''f'', dfn_arguments = Some ''''\<rparr>\<rparr>],
           toolCallChunk [\<lparr>dtc_index = 0, dtc_id = None,
                           dtc_function = Some \<lparr>dfn_name = None, dfn_arguments = Some ''{}''\<rparr>\<rparr>],
           finishChunk ''tool_calls'']
          (createStreamState ''abc'' ''claude'')
   = (([ContentBlockStart 0 (ToolUseBlock ''call_1'' ''f'' (JObj [])),
        ContentBlockDelta 0 (InputJsonDelta ''{}''),
        ContentBlockStop 0,
        MessageDelta tool_use None 0,
        MessageStop], None),
      (createStreamState ''abc'' ''claude'')
        \<lparr>contentBlocks := [ToolUseBlock ''call_1'' ''f'' (JObj [])],
         currentBlockIndex := 0,
         toolCallStates := [(0, \<lparr>ts_id = ''call_1'', ts_name = ''f'', argumentsBuffer = ''{}'',
                                 startEventSent = True\<rparr>)]\<rparr>)"
  by (rule tool_stream_events) (simp_all add: parseEmptyObjectOnly_def)

section \<open>A chunk without choices\<close>

text \<open>
  \<^bold>\<open>C10.\<close>  For every state and every chunk whose list of choices is empty, the translator
  returns no event and leaves the state as it was, every field of it.
\<close>

theorem empty_choices_chunk:
  "chunk_choices chunk = [] \<Longrightarrow> translateStreamChunk parse chunk state = (Inr [], state)"
  by (simp add: translateStreamChunk_def)

theorem empty_choices_chunk_witness:
  "translateStreamChunk parseEmptyObjectOnly \<lparr>chunk_choices = []\<rparr>
     (snd (handleText (Some ''Hi'') (createStreamState ''abc'' ''claude'')))
   = (Inr [], snd (handleText (Some ''Hi'') (createStreamState ''abc'' ''claude'')))"
  by (rule empty_choices_chunk) simp

section \<open>The non-streaming translation\<close>

text \<open>
  \<^bold>\<open>C6.\<close>  A provider reply with an empty list of choices makes \<^verbatim>\<open>translateResponse\<close> fail
  with the no-choices error (the \<open>EmptyReply\<close> of the specification): the result is the error
  and no reply, whole or partial.  The function has no state to change.
\<close>

theorem no_choices_fails:
  "resp_choices cerebrasResponse = [] \<Longrightarrow>
   translateResponse parse cerebrasResponse originalModel = Inl NoChoices"
  by (simp add: translateResponse_def)

theorem no_choices_fails_witness:
  "translateResponse parseEmptyObjectOnly
     \<lparr>resp_id = ''chatcmpl-123'', resp_choices = [],
      resp_usage = \<lparr>prompt_tokens = 10, completion_tokens = 0\<rparr>\<rparr> ''claude'' = Inl NoChoices"
  by (rule no_choices_fails) simp

text \<open>
  \<^bold>\<open>C5.\<close>  When the first choice of a provider reply has no non-empty text (the content is
  absent or the empty string) and no tool call (the list is absent or empty), the translation
  succeeds and the reply holds exactly one content unit, a text unit with the empty text.
\<close>

theorem zero_content_reply:
  assumes "resp_choices cerebrasResponse = choice # others"
    and "\<not> truthy (msg_content (ch_message choice))"
    and "msg_tool_calls (ch_message choice) = None \<or> msg_tool_calls (ch_message choice) = Some []"
  shows "\<exists>reply. translateResponse parse cerebrasResponse originalModel = Inr reply
           \<and> r_content reply = [TextBlock '''']"
  using assms by (auto simp: translateResponse_def)

theorem zero_content_reply_witness:
  "\<exists>reply. translateResponse parseEmptyObjectOnly
      \<lparr>resp_id = ''chatcmpl-123'',
       resp_choices = [\<lparr>ch_message = \<lparr>msg_content = Some '''', msg_tool_calls = Some []\<rparr>,
                        ch_finish_reason = Some ''stop''\<rparr>],
       resp_usage = \<lparr>prompt_tokens = 10, completion_tokens = 0\<rparr>\<rparr> ''claude'' = Inr reply
     \<and> r_content reply = [TextBlock '''']"
  by (rule zero_content_reply
        [where choice = "\<lparr>ch_message = \<lparr>msg_content = Some '''', msg_tool_calls = Some []\<rparr>,
                         ch_finish_reason = Some ''stop''\<rparr>" and others = "[]"])
     simp_all

text \<open>Whatever the provider reply, a translated reply never has an empty content list.\<close>

lemma translateResponse_content_nonempty:
  "translateResponse parse cerebrasResponse originalModel = Inr reply \<Longrightarrow> r_content reply \<noteq> []"
  by (auto simp: translateResponse_def Let_def split: list.splits sum.splits if_splits)

section \<open>The stop reason\<close>

lemma handleFinish_events:
  "handleFinish parse finish_reason state = (Inr events, state') \<Longrightarrow>
   \<exists>closing. events = closing @
      [MessageDelta (case translateStopReason finish_reason
                            (if toolCallStates state' \<noteq> []
                             then Some [\<lparr>tc_id = [], tc_function = \<lparr>fn_name = [], fn_arguments = []\<rparr>\<rparr>]
                             else None) of
                       None \<Rightarrow> end_turn | Some r \<Rightarrow> r) None (outputTokens state'),
       MessageStop]"
  by (auto simp: handleFinish_def Let_def split: prod.splits sum.splits if_splits)

text \<open>
  \<^bold>\<open>C4.\<close>  The stop-reason mapping: with at least one tool call the result is \<open>tool_use\<close>
  whatever the finish reason; without one (the list absent or empty), "stop" gives
  \<open>end_turn\<close>, "length" gives \<open>max_tokens\<close>, "tool_calls" gives \<open>tool_use\<close>,
  "content_filter" gives \<open>end_turn\<close>, and every other reason, the absent one too, gives none.
  The streaming translator, on a chunk that carries a finish reason, ends its events with
  the message delta and the message stop, and the stop reason of that delta is the same
  mapping applied to the finish reason, with a tool call present exactly when a tool-call
  unit is registered in the state, and \<open>end_turn\<close> in place of none.
\<close>

theorem stop_reason_mapping:
  "(toolCalls \<noteq> [] \<longrightarrow> translateStopReason finishReason (Some toolCalls) = Some tool_use)
   \<and> translateStopReason finishReason (Some []) = translateStopReason finishReason None
   \<and> translateStopReason (Some ''stop'') None = Some end_turn
   \<and> translateStopReason (Some ''length'') None = Some max_tokens
   \<and> translateStopReason (Some ''tool_calls'') None = Some tool_use
   \<and> translateStopReason (Some ''content_filter'') None = Some end_turn
   \<and> (finishReason \<notin> {Some ''stop'', Some ''length'', Some ''tool_calls'', Some ''content_filter''}
        \<longrightarrow> translateStopReason finishReason None = None)
   \<and> (chunk_choices chunk = choice # others \<and> truthy (cc_finish_reason choice)
        \<and> translateStreamChunk parse chunk state = (Inr events, state')
        \<longrightarrow> (\<exists>earlier. events = earlier @
               [MessageDelta
                  (case translateStopReason (cc_finish_reason choice)
                          (if toolCallStates state' \<noteq> []
                           then Some [\<lparr>tc_id = [], tc_function = \<lparr>fn_name = [], fn_arguments = []\<rparr>\<rparr>]
                           else None) of
                     None \<Rightarrow> end_turn | Some r \<Rightarrow> r)
                  None (outputTokens state'),
                MessageStop]))"
proof -
  have stream: "\<exists>earlier. events = earlier @
               [MessageDelta
                  (case translateStopReason (cc_finish_reason choice)
                          (if toolCallStates state' \<noteq> []
                           then Some [\<lparr>tc_id = [], tc_function = \<lparr>fn_name = [], fn_arguments = []\<rparr>\<rparr>]
                           else None) of
                     None \<Rightarrow> end_turn | Some r \<Rightarrow> r)
                  None (outputTokens state'),
                MessageStop]"
    if c: "chunk_choices chunk = choice # others" and t: "truthy (cc_finish_reason choice)"
      and r: "translateStreamChunk parse chunk state = (Inr events, state')"
  proof -
    from c t r obtain events12 state2 events3 where
      f: "handleFinish parse (cc_finish_reason choice) state2 = (Inr events3, state')"
      and e: "events = events12 @ events3"
      by (auto simp: translateStreamChunk_def Let_def split: prod.splits sum.splits)
    from handleFinish_events[OF f] e show ?thesis by auto
  qed
  show ?thesis
    using stream by (simp add: translateStopReason_def)
qed

theorem stop_reason_mapping_witness:
  "translateStopReason (Some ''eos'')
      (Some [\<lparr>tc_id = ''call_1'', tc_function = \<lparr>fn_name = ''f'', fn_arguments = ''{}''\<rparr>\<rparr>])
     = Some tool_use
   \<and> translateStopReason (Some ''eos'') None = None
   \<and> translateStreamChunk parseEmptyObjectOnly (finishChunk ''eos'')
        (createStreamState ''abc'' ''claude'')
       = (Inr [MessageDelta end_turn None 0, MessageStop], createStreamState ''abc'' ''claude'')
   \<and> (\<exists>earlier. [MessageDelta end_turn None 0, MessageStop]
         = earlier @ [MessageDelta end_turn None 0, MessageStop])"
  using stop_reason_mapping
    [where toolCalls = "[\<lparr>tc_id = ''call_1'', tc_function = \<lparr>fn_name = ''f'', fn_arguments = ''{}''\<rparr>\<rparr>]"
       and finishReason = "Some ''eos''"
       and chunk = "finishChunk ''eos''"
       and choice = "\<lparr>cc_delta = \<lparr>delta_content = None, delta_tool_calls = None\<rparr>,
                      cc_finish_reason = Some ''eos''\<rparr>"
       and others = "[]"
       and parse = parseEmptyObjectOnly
       and state = "createStreamState ''abc'' ''claude''"
       and events = "[MessageDelta end_turn None 0, MessageStop]"
       and state' = "createStreamState ''abc'' ''claude''"]
  by (simp add: stream_defs)

section \<open>Tool results in the request mapper\<close>

lemma textsOf_filter: "map block_text (filter isText blocks) = textsOf blocks"
  by (induction blocks rule: textsOf.induct) auto

lemma toolResultMessages_spec:
  "map toolResultMessage (filter isToolResult content) = map spec_toolMessage (toolResultBlocks content)"
  by (induction content rule: toolResultBlocks.induct)
     (auto simp: spec_toolMessage_def textsOf_filter split: ToolResultContent.splits)

text \<open>
  \<^bold>\<open>C8.\<close>  For a user message with block content, the messages produced start with one
  \<^verbatim>\<open>tool\<close>-role message per \<^verbatim>\<open>tool_result\<close> block, in the order of the blocks: its
  \<^verbatim>\<open>tool_call_id\<close> is the block's \<^verbatim>\<open>tool_use_id\<close>, its content is the block's string, or the
  texts of its text blocks joined by newlines, and it starts with "Error: " exactly when
  \<^verbatim>\<open>is_error\<close> is set.  What follows them holds no \<^verbatim>\<open>tool\<close>-role message.
\<close>

theorem tool_results_become_tool_messages:
  assumes "m_role message = User" and "m_content message = Blocks content"
  shows "\<exists>userPart. translateMessage stringify message
            = map spec_toolMessage (toolResultBlocks content) @ userPart
          \<and> \<not> list_ex isToolMessage userPart"
  using assms
  by (auto simp: translateMessage_def Let_def toolResultMessages_spec
           split: list.splits UserContentPart.splits)

theorem tool_results_become_tool_messages_witness:
  "translateMessage (\<lambda>_. ''{}'')
     \<lparr>m_role = User,
      m_content = Blocks
        [ToolResultBlock ''toolu_1'' (StringContent ''42'') None,
         TextBlock ''and now?'',
         ToolResultBlock ''toolu_2''
           (BlockContent [TextBlock ''no such file'', ImageBlock \<lparr>src_type = UrlSource,
              src_media_type = None, src_data = None, src_url = Some ''http://x''\<rparr>,
              TextBlock ''giving up'']) (Some True)]\<rparr>
   = [ToolMessage ''42'' ''toolu_1'',
      ToolMessage (''Error: no such file'' @ newline @ ''giving up'') ''toolu_2'',
      UserMessage (UserText ''and now?'')]"
  using tool_results_become_tool_messages
    [where message = "\<lparr>m_role = User,
      m_content = Blocks
        [ToolResultBlock ''toolu_1'' (StringContent ''42'') None,
         TextBlock ''and now?'',
         ToolResultBlock ''toolu_2''
           (BlockContent [TextBlock ''no such file'', ImageBlock \<lparr>src_type = UrlSource,
              src_media_type = None, src_data = None, src_url = Some ''http://x''\<rparr>,
              TextBlock ''giving up'']) (Some True)]\<rparr>"
      and stringify = "\<lambda>_. ''{}''"]
  by (simp add: translateMessage_def spec_toolMessage_def)

section \<open>Token counts in the stream\<close>

lemma messageDeltaTokens_append:
  "messageDeltaTokens (xs @ ys) = messageDeltaTokens xs @ messageDeltaTokens ys"
  by (induction xs rule: messageDeltaTokens.induct) auto

lemma handleText_tokens:
  "handleText content state = (events, state') \<Longrightarrow>
   outputTokens state' = outputTokens state \<and> inputTokens state' = inputTokens state
   \<and> messageDeltaTokens events = []"
  by (auto simp: handleText_def Let_def split: if_splits)

lemma closeTextForToolCalls_tokens:
  "closeTextForToolCalls state = (events, state') \<Longrightarrow>
   outputTokens state' = outputTokens state \<and> inputTokens state' = inputTokens state
   \<and> messageDeltaTokens events = []"
  by (auto simp: closeTextForToolCalls_def split: if_splits)

lemma handleToolCall_tokens:
  "handleToolCall toolCall state = (events, state') \<Longrightarrow>
   outputTokens state' = outputTokens state \<and> inputTokens state' = inputTokens state
   \<and> messageDeltaTokens events = []"
  by (auto simp: handleToolCall_def Let_def split: if_splits option.splits prod.splits)

lemma handleToolCalls_tokens:
  "handleToolCalls toolCalls state = (events, state') \<Longrightarrow>
   outputTokens state' = outputTokens state \<and> inputTokens state' = inputTokens state
   \<and> messageDeltaTokens events = []"
proof (induction toolCalls arbitrary: state events state')
  case Nil
  then show ?case by simp
next
  case (Cons toolCall rest)
  obtain e1 s1 where h: "handleToolCall toolCall state = (e1, s1)" by (cases "handleToolCall toolCall state")
  obtain e2 s2 where r: "handleToolCalls rest s1 = (e2, s2)" by (cases "handleToolCalls rest s1")
  from Cons.prems h r have "events = e1 @ e2" "state' = s2" by auto
  with handleToolCall_tokens[OF h] Cons.IH[OF r] show ?case
    by (simp add: messageDeltaTokens_append)
qed

lemma closeToolCalls_tokens:
  "closeToolCalls parse entries0 state = (result, state') \<Longrightarrow>
   outputTokens state' = outputTokens state \<and> inputTokens state' = inputTokens state
   \<and> (\<forall>events. result = Inr events \<longrightarrow> messageDeltaTokens events = [])"
proof (induction entries0 arbitrary: state result state')
  case Nil
  then show ?case by auto
next
  case (Cons entry rest)
  obtain index toolState where e: "entry = (index, toolState)" by (cases entry)
  show ?case
  proof (cases "startEventSent toolState")
    case False
    with Cons e show ?thesis by simp
  next
    case True
    show ?thesis
    proof (cases "if argumentsBuffer toolState \<noteq> [] then parse (argumentsBuffer toolState)
               else Some (JObj [])")
      case None
      with Cons.prems e True show ?thesis by auto
    next
      case (Some input)
      let ?s = "state\<lparr>contentBlocks := contentBlocks state @
                              [ToolUseBlock (ts_id toolState) (ts_name toolState) input]\<rparr>"
      obtain r1 s1 where r: "closeToolCalls parse rest ?s = (r1, s1)"
        by (cases "closeToolCalls parse rest ?s")
      from Cons.IH[OF r] Cons.prems e True Some r show ?thesis
        by (auto split: sum.splits)
    qed
  qed
qed

lemma handleFinish_tokens:
  "handleFinish parse finish_reason state = (result, state') \<Longrightarrow>
   outputTokens state' = outputTokens state \<and> inputTokens state' = inputTokens state
   \<and> (\<forall>events. result = Inr events \<longrightarrow> messageDeltaTokens events = [outputTokens state])"
proof -
  assume a: "handleFinish parse finish_reason state = (result, state')"
  define s1 where "s1 = (if textBlockStarted state then
         state\<lparr>contentBlocks := contentBlocks state @ [TextBlock (textBuffer state)]\<rparr> else state)"
  obtain r2 s2 where c: "closeToolCalls parse (toolCallStates s1) s1 = (r2, s2)"
    by (cases "closeToolCalls parse (toolCallStates s1) s1")
  have t: "outputTokens s1 = outputTokens state" "inputTokens s1 = inputTokens state"
    by (simp_all add: s1_def)
  from closeToolCalls_tokens[OF c] t a c show ?thesis
    by (auto simp: handleFinish_def Let_def s1_def messageDeltaTokens_append
             split: if_splits sum.splits)
qed

lemma translateStreamChunk_tokens:
  "translateStreamChunk parse chunk state = (result, state') \<Longrightarrow>
   outputTokens state' = outputTokens state \<and> inputTokens state' = inputTokens state
   \<and> (\<forall>events. result = Inr events \<longrightarrow> set (messageDeltaTokens events) \<subseteq> {outputTokens state})"
proof (cases "chunk_choices chunk")
  case Nil
  assume "translateStreamChunk parse chunk state = (result, state')"
  with Nil show ?thesis by (auto simp: translateStreamChunk_def)
next
  case (Cons choice others)
  assume a: "translateStreamChunk parse chunk state = (result, state')"
  obtain e1 s1 where h1: "handleText (delta_content (cc_delta choice)) state = (e1, s1)"
    by (cases "handleText (delta_content (cc_delta choice)) state")
  obtain eA sA where hA: "closeTextForToolCalls s1 = (eA, sA)" by (cases "closeTextForToolCalls s1")
  define e2s2 where "e2s2 = (case delta_tool_calls (cc_delta choice) of
                  None \<Rightarrow> ([], s1)
                | Some tool_calls \<Rightarrow>
                   (let (eventsA, stateA) = closeTextForToolCalls s1;
                        (eventsB, stateB) = handleToolCalls tool_calls stateA
                    in (eventsA @ eventsB, stateB)))"
  obtain e2 s2 where h2: "e2s2 = (e2, s2)" by (cases e2s2)
  have t2: "outputTokens s2 = outputTokens state \<and> inputTokens s2 = inputTokens state
      \<and> messageDeltaTokens e2 = []"
  proof (cases "delta_tool_calls (cc_delta choice)")
    case None
    with h2 handleText_tokens[OF h1] show ?thesis by (simp add: e2s2_def)
  next
    case (Some tcs)
    obtain eB sB where hB: "handleToolCalls tcs sA = (eB, sB)" by (cases "handleToolCalls tcs sA")
    from Some h2 hA hB have "e2 = eA @ eB" "s2 = sB" by (auto simp: e2s2_def)
    with handleText_tokens[OF h1] closeTextForToolCalls_tokens[OF hA] handleToolCalls_tokens[OF hB]
    show ?thesis by (simp add: messageDeltaTokens_append)
  qed
  obtain r3 s3 where h3: "handleFinish parse (cc_finish_reason choice) s2 = (r3, s3)"
    by (cases "handleFinish parse (cc_finish_reason choice) s2")
  from a Cons h1 h2 h3 handleText_tokens[OF h1] t2 handleFinish_tokens[OF h3]
  show ?thesis
    by (auto simp: translateStreamChunk_def Let_def e2s2_def[symmetric] messageDeltaTokens_append
             split: if_splits sum.splits)
qed

lemma feedChunks_tokens:
  "feedChunks parse chunks state = ((events, err), state') \<Longrightarrow>
   outputTokens state' = outputTokens state \<and> inputTokens state' = inputTokens state
   \<and> set (messageDeltaTokens events) \<subseteq> {outputTokens state}"
proof (induction chunks arbitrary: state events err state')
  case Nil
  then show ?case by auto
next
  case (Cons chunk rest)
  obtain r1 s1 where t: "translateStreamChunk parse chunk state = (r1, s1)"
    by (cases "translateStreamChunk parse chunk state")
  show ?case
  proof (cases r1)
    case (Inl e)
    with Cons.prems t translateStreamChunk_tokens[OF t] show ?thesis by auto
  next
    case (Inr ev1)
    obtain ev2 err2 s2 where f: "feedChunks parse rest s1 = ((ev2, err2), s2)"
      by (cases "feedChunks parse rest s1") auto
    from Cons.prems t Inr f have "events = ev1 @ ev2" "state' = s2" by auto
    with Cons.IH[OF f] translateStreamChunk_tokens[OF t] Inr show ?thesis
      by (auto simp: messageDeltaTokens_append)
  qed
qed

text \<open>
  \<^bold>\<open>C9.\<close>  Whatever chunks are fed to the translator from a fresh state, every message delta
  it emits reports 0 output tokens, and the input and output token counts of the state are
  still 0 at the end: no chunk updates them.
\<close>

theorem stream_output_tokens_zero:
  "set (messageDeltaTokens (fst (fst (feedChunks parse chunks
          (createStreamState generatedId originalModel))))) \<subseteq> {0}
   \<and> outputTokens (snd (feedChunks parse chunks (createStreamState generatedId originalModel))) = 0
   \<and> inputTokens (snd (feedChunks parse chunks (createStreamState generatedId originalModel))) = 0"
proof -
  obtain events err state' where
    f: "feedChunks parse chunks (createStreamState generatedId originalModel) = ((events, err), state')"
    by (cases "feedChunks parse chunks (createStreamState generatedId originalModel)") auto
  from feedChunks_tokens[OF f] f show ?thesis by (simp add: createStreamState_def)
qed

section \<open>Content-unit indices\<close>

lemma countsFrom_append:
  "countsFrom b xs \<Longrightarrow> countsFrom (b + int (length xs)) ys \<Longrightarrow> countsFrom b (xs @ ys)"
  by (induction xs arbitrary: b) (auto simp: add.assoc)

lemma countsFrom_upt: "countsFrom b xs \<Longrightarrow> xs = map (\<lambda>i. b + int i) [0..<length xs]"
proof (induction xs arbitrary: b)
  case Nil
  then show ?case by simp
next
  case (Cons x xs)
  then have x: "x = b" and xs: "xs = map (\<lambda>i. b + 1 + int i) [0..<length xs]" by auto
  have "[0..<length (x # xs)] = 0 # map Suc [0..<length xs]"
    by (simp add: upt_conv_Cons map_Suc_upt del: upt_Suc)
  then have "map (\<lambda>i. b + int i) [0..<length (x # xs)]
             = b # map (\<lambda>i. b + 1 + int i) [0..<length xs]"
    by (simp add: o_def add.assoc add.commute del: upt_Suc)
  with x xs show ?case by simp
qed

lemma textAssigned_counts:
  "countsFrom (currentBlockIndex state + 1) (textAssigned content state)
   \<and> currentBlockIndex (snd (handleText content state))
       = currentBlockIndex state + int (length (textAssigned content state))"
  by (simp add: textAssigned_def handleText_def Let_def)

lemma closeTextForToolCalls_index:
  "currentBlockIndex (snd (closeTextForToolCalls state)) = currentBlockIndex state"
  by (simp add: closeTextForToolCalls_def)

lemma handleToolCall_index:
  "currentBlockIndex (snd (handleToolCall toolCall state))
   = (if map_of (toolCallStates state) (dtc_index toolCall) = None \<and> truthy (dtc_id toolCall)
      then currentBlockIndex state + 1 else currentBlockIndex state)"
proof (cases "map_of (toolCallStates state) (dtc_index toolCall) = None \<and> truthy (dtc_id toolCall)")
  case True
  then show ?thesis by (simp add: handleToolCall_def Let_def split_def)
next
  case False
  then show ?thesis
    by (cases "map_of (toolCallStates state) (dtc_index toolCall)")
       (simp_all add: handleToolCall_def Let_def split_def)
qed

lemma handleToolCall_registered:
  "map_of (toolCallStates (snd (handleToolCall toolCall state))) (dtc_index toolCall) \<noteq> None
   \<longleftrightarrow> map_of (toolCallStates state) (dtc_index toolCall) \<noteq> None \<or> truthy (dtc_id toolCall)"
proof (cases "map_of (toolCallStates state) (dtc_index toolCall) = None \<and> truthy (dtc_id toolCall)")
  case True
  then show ?thesis by (simp add: handleToolCall_def Let_def split_def update_conv')
next
  case False
  then show ?thesis
    by (cases "map_of (toolCallStates state) (dtc_index toolCall)")
       (simp_all add: handleToolCall_def Let_def split_def update_conv')
qed

lemma toolCallAssigned_counts:
  "countsFrom (currentBlockIndex state + 1) (toolCallAssigned toolCall state)
   \<and> currentBlockIndex (snd (handleToolCall toolCall state))
       = currentBlockIndex state + int (length (toolCallAssigned toolCall state))"
  using handleToolCall_registered[of toolCall state]
  by (auto simp: toolCallAssigned_def Let_def handleToolCall_index)

lemma handleToolCalls_snd:
  "snd (handleToolCalls (toolCall # rest) state)
   = snd (handleToolCalls rest (snd (handleToolCall toolCall state)))"
  by (simp add: split_def Let_def)

lemma toolCallsAssigned_counts:
  "countsFrom (currentBlockIndex state + 1) (toolCallsAssigned toolCalls state)
   \<and> currentBlockIndex (snd (handleToolCalls toolCalls state))
       = currentBlockIndex state + int (length (toolCallsAssigned toolCalls state))"
proof (induction toolCalls arbitrary: state)
  case Nil
  then show ?case by simp
next
  case (Cons toolCall rest)
  let ?s1 = "snd (handleToolCall toolCall state)"
  note one = toolCallAssigned_counts[of state toolCall]
  note more = Cons.IH[of ?s1]
  have e: "currentBlockIndex state + 1 + int (length (toolCallAssigned toolCall state))
           = currentBlockIndex ?s1 + 1"
    using one by simp
  have "countsFrom (currentBlockIndex ?s1 + 1) (toolCallsAssigned rest ?s1)"
    using more by (rule conjunct1)
  then have "countsFrom (currentBlockIndex state + 1 + int (length (toolCallAssigned toolCall state)))
               (toolCallsAssigned rest ?s1)"
    by (simp only: e)
  with one have "countsFrom (currentBlockIndex state + 1)
          (toolCallAssigned toolCall state @ toolCallsAssigned rest ?s1)"
    by (intro countsFrom_append) simp_all
  then show ?case using one more by (simp add: handleToolCalls_snd del: handleToolCalls.simps)
qed

lemma closeToolCalls_index:
  "currentBlockIndex (snd (closeToolCalls parse entries0 state)) = currentBlockIndex state"
  by (induction parse entries0 state rule: closeToolCalls.induct)
     (auto split: option.splits sum.splits prod.splits)

lemma handleFinish_index:
  "currentBlockIndex (snd (handleFinish parse finish_reason state)) = currentBlockIndex state"
proof -
  define s1 where "s1 = (if textBlockStarted state then
         state\<lparr>contentBlocks := contentBlocks state @ [TextBlock (textBuffer state)]\<rparr> else state)"
  have "currentBlockIndex (snd (closeToolCalls parse (toolCallStates s1) s1)) = currentBlockIndex state"
    by (simp add: closeToolCalls_index s1_def)
  then show ?thesis
    by (auto simp: handleFinish_def Let_def s1_def split: prod.splits sum.splits if_splits)
qed

lemma chunkAssigned_counts:
  "countsFrom (currentBlockIndex state + 1) (chunkAssigned chunk state)
   \<and> currentBlockIndex (snd (translateStreamChunk parse chunk state))
       = currentBlockIndex state + int (length (chunkAssigned chunk state))"
proof (cases "chunk_choices chunk")
  case Nil
  then show ?thesis by (simp add: chunkAssigned_def translateStreamChunk_def)
next
  case (Cons choice others)
  let ?content = "delta_content (cc_delta choice)"
  let ?s1 = "snd (handleText ?content state)"
  let ?sA = "snd (closeTextForToolCalls ?s1)"
  define s2 where "s2 = (case delta_tool_calls (cc_delta choice) of
      None \<Rightarrow> ?s1 | Some tool_calls \<Rightarrow> snd (handleToolCalls tool_calls ?sA))"
  define tools where "tools = (case delta_tool_calls (cc_delta choice) of
      None \<Rightarrow> [] | Some tool_calls \<Rightarrow> toolCallsAssigned tool_calls ?sA)"
  note opened = textAssigned_counts[of state ?content]
  have registered: "countsFrom (currentBlockIndex ?s1 + 1) tools
      \<and> currentBlockIndex s2 = currentBlockIndex ?s1 + int (length tools)"
    using toolCallsAssigned_counts[of ?sA]
    by (simp add: s2_def tools_def closeTextForToolCalls_index split: option.splits)
  have assigned: "chunkAssigned chunk state = textAssigned ?content state @ tools"
    using Cons by (simp add: chunkAssigned_def tools_def)
  have final: "currentBlockIndex (snd (translateStreamChunk parse chunk state)) = currentBlockIndex s2"
    using Cons handleFinish_index[of parse "cc_finish_reason choice" s2]
    by (auto simp: translateStreamChunk_def Let_def s2_def split_def split: option.splits sum.splits)
  have e: "currentBlockIndex state + 1 + int (length (textAssigned ?content state))
           = currentBlockIndex ?s1 + 1"
    using opened by simp
  have "countsFrom (currentBlockIndex ?s1 + 1) tools"
    using registered by (rule conjunct1)
  then have "countsFrom (currentBlockIndex state + 1 + int (length (textAssigned ?content state))) tools"
    by (simp only: e)
  with opened have "countsFrom (currentBlockIndex state + 1) (textAssigned ?content state @ tools)"
    by (intro countsFrom_append) simp_all
  then show ?thesis using opened registered assigned final by simp
qed

lemma feedChunks_snd:
  "snd (feedChunks parse (chunk # rest) state)
   = (case translateStreamChunk parse chunk state of
        (Inl e, state1) \<Rightarrow> state1
      | (Inr events, state1) \<Rightarrow> snd (feedChunks parse rest state1))"
  by (simp split: prod.splits sum.splits)

lemma assignedIndices_counts:
  "countsFrom (currentBlockIndex state + 1) (assignedIndices parse chunks state)
   \<and> currentBlockIndex (snd (feedChunks parse chunks state))
       = currentBlockIndex state + int (length (assignedIndices parse chunks state))"
proof (induction chunks arbitrary: state)
  case Nil
  then show ?case by simp
next
  case (Cons chunk rest)
  obtain r1 s1 where t: "translateStreamChunk parse chunk state = (r1, s1)"
    by (cases "translateStreamChunk parse chunk state")
  note one = chunkAssigned_counts[of state chunk parse]
  show ?case
  proof (cases r1)
    case (Inl e)
    with t one show ?thesis by simp
  next
    case (Inr events)
    note more = Cons.IH[of s1]
    have e: "currentBlockIndex state + 1 + int (length (chunkAssigned chunk state))
             = currentBlockIndex s1 + 1"
      using one t by simp
    have "countsFrom (currentBlockIndex s1 + 1) (assignedIndices parse rest s1)"
      using more by (rule conjunct1)
    then have "countsFrom (currentBlockIndex state + 1 + int (length (chunkAssigned chunk state)))
                 (assignedIndices parse rest s1)"
      by (simp only: e)
    with one have "countsFrom (currentBlockIndex state + 1)
            (chunkAssigned chunk state @ assignedIndices parse rest s1)"
      by (intro countsFrom_append) simp_all
    then show ?thesis using one more t Inr
      by (simp add: feedChunks_snd del: feedChunks.simps)
  qed
qed

text \<open>
  \<^bold>\<open>C3.\<close>  Whatever chunks are fed to the translator from a fresh state, and however their
  text and tool-call deltas interleave, the indices given to the text units as they open and
  to the tool-call units as they are registered are 0, 1, 2, \<dots> in this order, none used
  twice and none left out; the running index of the state is the last one given (\<open>-1\<close> when
  none was).
\<close>

theorem assigned_indices_contiguous:
  "assignedIndices parse chunks (createStreamState generatedId originalModel)
     = map int [0..<length (assignedIndices parse chunks (createStreamState generatedId originalModel))]
   \<and> currentBlockIndex (snd (feedChunks parse chunks (createStreamState generatedId originalModel)))
     = int (length (assignedIndices parse chunks (createStreamState generatedId originalModel))) - 1"
proof -
  let ?s = "createStreamState generatedId originalModel"
  have b: "currentBlockIndex ?s + 1 = 0" by (simp add: createStreamState_def)
  from assignedIndices_counts[of ?s parse chunks] b
  have c: "countsFrom 0 (assignedIndices parse chunks ?s)"
    and i: "currentBlockIndex (snd (feedChunks parse chunks ?s))
            = int (length (assignedIndices parse chunks ?s)) - 1"
    by simp_all
  from countsFrom_upt[OF c] i show ?thesis by simp
qed

end
